theory Spec2Isabelle
  imports Main "HOL-Library.Multiset"
begin

section \<open>The extension manager model (packages/extensionmanager/src/model.ts)\<close>

text \<open>
  The development embeds \<open>ListModel\<close>, the data model of the extension manager, together
  with the statics \<open>ListModel.entryHasUpdate\<close> and the \<open>Private\<close> namespace.

  Conventions of the embedding.
  \<^item> A TypeScript interface is a record. \<open>IEntry\<close> keeps its field names; the fields of
    the other interfaces carry a short prefix, because several interfaces share the names
    \<open>name\<close>, \<open>description\<close> and \<open>status\<close>.
  \<^item> A plain object used as a dictionary (\<open>{ [key: string]: IEntry }\<close>) is modelled with
    the behaviour of a JavaScript object: \<open>Object.keys\<close> lists the own keys that are array
    indices first, in ascending numeric order, then the other keys in the order of their
    creation; a read that finds no own property continues on the prototype chain; an
    assignment to the key \<open>__proto__\<close> replaces the prototype.
  \<^item> A promise is represented by the way it settles, an \<open>outcome\<close>. A \<open>then\<close> with one
    callback runs it on fulfilment only and passes a rejection on. A call that hands back
    a promise may also throw while it is being made (a \<open>call\<close>).
  \<^item> A method is followed until the promises it created have settled, and the callbacks
    of a promise run in the order in which they were registered. The answer of the
    builder to a status request is independent of the method's own chain; whether it
    arrives before the reply of the action is read or after the method's chain has ended
    is a parameter (\<open>builder_answers_first\<close>).
  \<^item> Every method takes the model and returns the model it leaves behind. The field
    \<open>events\<close> records, in order, every \<open>stateChanged\<close> emission and every call the
    method sets out to make on a collaborator, whether or not the call then throws.
  \<^item> What lives outside this file (the registry searcher, the HTTP layer, the companion
    dialog, the builder, the regular expression engine, \<open>isJupyterOrg\<close>) is collected
    in a record \<open>world\<close>, a parameter of every method; \<open>semver.lt\<close> is a parameter of
    \<open>entryHasUpdate\<close>. The searcher, the dialog and the builder are known by their
    declared types: they answer through promises, and \<open>isJupyterOrg\<close> returns a boolean
    on every string.
\<close>

subsection \<open>Interfaces\<close>

datatype status = OK | WARNING | ERROR | DEPRECATED

fun status_text :: "status \<Rightarrow> string" where
  "status_text OK = ''ok''"
| "status_text WARNING = ''warning''"
| "status_text ERROR = ''error''"
| "status_text DEPRECATED = ''deprecated''"

text \<open>\<open>IEntry\<close>: information about an extension. A \<open>null\<close> status is \<open>None\<close>.\<close>

record IEntry =
  name :: string
  description :: string
  url :: string
  installed :: bool
  enabled :: bool
  status :: "status option"
  latest_version :: string
  installed_version :: string

text \<open>\<open>IInstalledEntry\<close>: the wire format for installed extensions; \<open>installed\<close> is optional.\<close>

record IInstalledEntry =
  inst_name :: string
  inst_description :: string
  inst_url :: string
  inst_installed :: "bool option"
  inst_enabled :: bool
  inst_latest_version :: string
  inst_installed_version :: string
  inst_status :: "status option"

text \<open>\<open>IActionReply\<close>: the server's reply to an action.\<close>

record IActionReply =
  reply_status :: "status option"
  reply_message :: "string option"

text \<open>
  \<open>ISearchResult\<close> of the registry searcher, as \<open>translateSearchResult\<close> reads it:
  \<open>objects[i].package\<close> with its \<open>links\<close>, and \<open>total\<close>.
\<close>

record ILinks =
  homepage :: "string option"
  repository :: "string option"
  npm :: string

record IPackage =
  pkg_name :: string
  pkg_description :: string
  pkg_version :: string
  pkg_keywords :: "string list"
  pkg_links :: ILinks

record ISearchResult =
  objects :: "IPackage list"
  total :: int

datatype action = Install | Uninstall | Enable | Disable

subsection \<open>Promises, calls and HTTP responses\<close>

text \<open>
  A rejection or an exception carries the value thrown: an \<open>Error\<close> object with its
  message, or any other value, given by its string rendering. \<open>toString\<close> is
  \<open>reason.toString()\<close>; an \<open>Error\<close> with an empty message renders as its name alone.
\<close>

datatype reason = Error string | Thrown string

fun toString :: "reason \<Rightarrow> string" where
  "toString (Error message) = (if message = [] then ''Error'' else ''Error: '' @ message)"
| "toString (Thrown text) = text"

datatype 'a outcome = Fulfilled 'a | Rejected reason

text \<open>A call that returns a promise: it throws in the caller's stack, or the promise settles.\<close>

datatype 'a call = Throws reason | Returns "'a outcome"

text \<open>A \<open>Response\<close>: \<open>ok\<close>, \<open>status\<close>, \<open>statusText\<close>, and how \<open>json()\<close> settles.\<close>

record 'a response =
  resp_ok :: bool
  resp_status :: nat
  resp_statusText :: string
  resp_json :: "'a outcome"

fun decimal :: "nat \<Rightarrow> string" where
  "decimal n =
     (if n < 10 then [''0123456789'' ! n]
      else decimal (n div 10) @ [''0123456789'' ! (n mod 10)])"

declare decimal.simps [simp del]

text \<open>\<open>Private.handleError\<close>: a response that is not \<open>ok\<close> is thrown as an \<open>Error\<close>.\<close>

definition handleError :: "'a response \<Rightarrow> reason + 'a response" where
  "handleError response =
     (if \<not> resp_ok response
      then Inl (Error (decimal (resp_status response) @ '' ('' @ resp_statusText response @ '')''))
      else Inr response)"

text \<open>
  The body of the reply to the request for the installed extensions is cast to
  \<open>IInstalledEntry[]\<close> without a check. It is a list of wire records, or a value on which
  the loop of \<open>translateInstalled\<close> throws (it cannot be iterated, or an element has no
  properties); the second carries what is thrown.
\<close>

datatype installed_body = Records "IInstalledEntry list" | Untranslatable reason

subsection \<open>Objects used as dictionaries\<close>

text \<open>
  An array index is the canonical decimal numeral of a number below \<open>2^32 - 1\<close>: digits
  only, no leading zero except for \<open>0\<close> itself.
\<close>

definition digit_value :: "char \<Rightarrow> nat option" where
  "digit_value c =
     map_of [(CHR ''0'', 0), (CHR ''1'', 1), (CHR ''2'', 2), (CHR ''3'', 3), (CHR ''4'', 4),
             (CHR ''5'', 5), (CHR ''6'', 6), (CHR ''7'', 7), (CHR ''8'', 8), (CHR ''9'', 9)] c"

fun decimal_value :: "nat \<Rightarrow> string \<Rightarrow> nat option" where
  "decimal_value acc [] = Some acc"
| "decimal_value acc (c # cs) =
     (case digit_value c of
        None \<Rightarrow> None
      | Some d \<Rightarrow> decimal_value (10 * acc + d) cs)"

definition array_index :: "string \<Rightarrow> nat option" where
  "array_index key =
     (case key of
        [] \<Rightarrow> None
      | c # cs \<Rightarrow>
          if c = CHR ''0'' \<and> cs \<noteq> [] then None
          else (case decimal_value 0 key of
                  None \<Rightarrow> None
                | Some n \<Rightarrow> if n < 4294967295 then Some n else None))"

text \<open>
  Own properties, kept in the order in which \<open>Object.keys\<close> lists them. \<open>props_put\<close>
  writes a key that is not an array index: an existing key keeps its place, a new key
  goes to the end. \<open>props_insert\<close> creates a key that is an array index: it goes in front
  of the first array index above it, and in front of every other key.
\<close>

type_synonym 'v props = "(string \<times> 'v) list"

fun props_put :: "'v props \<Rightarrow> string \<Rightarrow> 'v \<Rightarrow> 'v props" where
  "props_put [] key v = [(key, v)]"
| "props_put ((k, w) # m) key v =
     (if k = key then (k, v) # m else (k, w) # props_put m key v)"

fun props_insert :: "'v props \<Rightarrow> string \<Rightarrow> nat \<Rightarrow> 'v \<Rightarrow> 'v props" where
  "props_insert [] key n v = [(key, v)]"
| "props_insert ((k, w) # m) key n v =
     (case array_index k of
        None \<Rightarrow> (key, v) # (k, w) # m
      | Some i \<Rightarrow> if n < i then (key, v) # (k, w) # m else (k, w) # props_insert m key n v)"

definition props_set :: "'v props \<Rightarrow> string \<Rightarrow> 'v \<Rightarrow> 'v props" where
  "props_set m key v =
     (case array_index key of
        None \<Rightarrow> props_put m key v
      | Some n \<Rightarrow> if key \<in> fst ` set m then props_put m key v else props_insert m key n v)"

definition props_get :: "'v props \<Rightarrow> string \<Rightarrow> 'v option" where
  "props_get m key = map_of m key"

definition props_keys :: "'v props \<Rightarrow> string list" where
  "props_keys m = map fst m"

text \<open>
  The properties every object inherits from \<open>Object.prototype\<close>. All of them hold a
  function, except \<open>__proto__\<close>, an accessor for the prototype of the object.
\<close>

definition object_prototype_keys :: "string list" where
  "object_prototype_keys =
     [''constructor'', ''hasOwnProperty'', ''isPrototypeOf'', ''propertyIsEnumerable'',
      ''toLocaleString'', ''toString'', ''valueOf'', ''__proto__'', ''__defineGetter__'',
      ''__defineSetter__'', ''__lookupGetter__'', ''__lookupSetter__'']"

text \<open>
  What a read \<open>dictionary[key]\<close> can yield, and what ends up in a view: an entry; the
  member of \<open>Object.prototype\<close> of that key; a string, a boolean or \<open>null\<close> read from a
  field of an entry that has become the prototype. \<open>None\<close> stands for \<open>undefined\<close>.
\<close>

datatype jsval =
    Entry IEntry
  | Member string
  | StringValue string
  | BooleanValue bool
  | NullValue

definition entry_field :: "IEntry \<Rightarrow> string \<Rightarrow> jsval option" where
  "entry_field e key =
     (if key = ''name'' then Some (StringValue (name e))
      else if key = ''description'' then Some (StringValue (description e))
      else if key = ''url'' then Some (StringValue (url e))
      else if key = ''installed'' then Some (BooleanValue (installed e))
      else if key = ''enabled'' then Some (BooleanValue (enabled e))
      else if key = ''status'' then
        Some (case status e of None \<Rightarrow> NullValue | Some st \<Rightarrow> StringValue (status_text st))
      else if key = ''latest_version'' then Some (StringValue (latest_version e))
      else if key = ''installed_version'' then Some (StringValue (installed_version e))
      else None)"

text \<open>
  A dictionary of entries: its own properties and, once \<open>__proto__\<close> has been assigned,
  the entry that replaced \<open>Object.prototype\<close> as its prototype (itself an object literal,
  with \<open>Object.prototype\<close> behind it).
\<close>

record dict =
  props :: "IEntry props"
  proto :: "IEntry option"

definition empty_dict :: dict where
  "empty_dict = \<lparr> props = [], proto = None \<rparr>"

text \<open>\<open>entries[key] = v\<close>.\<close>

definition dict_set :: "dict \<Rightarrow> string \<Rightarrow> IEntry \<Rightarrow> dict" where
  "dict_set d key v =
     (if key = ''__proto__'' then d\<lparr>proto := Some v\<rparr>
      else d\<lparr>props := props_set (props d) key v\<rparr>)"

definition dict_keys :: "dict \<Rightarrow> string list" where
  "dict_keys d = props_keys (props d)"

text \<open>\<open>entries[key]\<close>: the own property, or else what the prototype chain has.\<close>

definition inherited :: "IEntry option \<Rightarrow> string \<Rightarrow> jsval option" where
  "inherited prototype key =
     (case prototype of
        None \<Rightarrow> if key \<in> set object_prototype_keys then Some (Member key) else None
      | Some p \<Rightarrow>
          (case entry_field p key of
             Some v \<Rightarrow> Some v
           | None \<Rightarrow>
               if key = ''__proto__'' then Some (Entry p)
               else if key \<in> set object_prototype_keys then Some (Member key)
               else None))"

definition dict_get :: "dict \<Rightarrow> string \<Rightarrow> jsval option" where
  "dict_get d key =
     (case props_get (props d) key of
        Some e \<Rightarrow> Some (Entry e)
      | None \<Rightarrow> inherited (proto d) key)"

text \<open>
  \<open>v.name\<close>: the name of an entry; the name of a function (\<open>Object\<close> for the member
  \<open>constructor\<close>); \<open>undefined\<close> on a string, a boolean and on \<open>Object.prototype\<close>
  itself; a \<open>TypeError\<close> on \<open>null\<close>.
\<close>

definition name_of :: "jsval \<Rightarrow> reason + string option" where
  "name_of v =
     (case v of
        Entry e \<Rightarrow> Inr (Some (name e))
      | Member key \<Rightarrow>
          Inr (if key = ''__proto__'' then None
               else if key = ''constructor'' then Some ''Object''
               else Some key)
      | StringValue t \<Rightarrow> Inr None
      | BooleanValue b \<Rightarrow> Inr None
      | NullValue \<Rightarrow> Inl (Thrown ''TypeError: Cannot read property name of null''))"

subsection \<open>Translation of the two channels into entries\<close>

text \<open>
  \<open>translateSearchResult\<close>: awaiting a rejected promise rethrows its reason; packages
  with \<open>deprecated\<close> among their keywords are skipped (\<open>continue\<close>); the others are
  stored under their name.
\<close>

definition search_entry :: "IPackage \<Rightarrow> IEntry" where
  "search_entry pkg =
     \<lparr> name = pkg_name pkg,
       description = pkg_description pkg,
       url = (case homepage (pkg_links pkg) of
                Some h \<Rightarrow> h
              | None \<Rightarrow> (case repository (pkg_links pkg) of
                           Some r \<Rightarrow> r
                         | None \<Rightarrow> npm (pkg_links pkg))),
       installed = False,
       enabled = False,
       status = None,
       latest_version = pkg_version pkg,
       installed_version = [] \<rparr>"

fun translateSearchLoop :: "dict \<Rightarrow> IPackage list \<Rightarrow> dict" where
  "translateSearchLoop entries [] = entries"
| "translateSearchLoop entries (pkg # rest) =
     (if ''deprecated'' \<in> set (pkg_keywords pkg) then translateSearchLoop entries rest
      else translateSearchLoop (dict_set entries (pkg_name pkg) (search_entry pkg)) rest)"

definition translateSearchResult :: "ISearchResult outcome \<Rightarrow> dict outcome" where
  "translateSearchResult res =
     (case res of
        Rejected r \<Rightarrow> Rejected r
      | Fulfilled result \<Rightarrow> Fulfilled (translateSearchLoop empty_dict (objects result)))"

text \<open>
  \<open>translateInstalled\<close>: one callback per wire record, run in the order of the records;
  \<open>installed\<close> is \<open>pkg.installed !== false\<close>, every other field is copied. A rejected
  request and a body the loop throws on reject the translation.
\<close>

definition installed_entry :: "IInstalledEntry \<Rightarrow> IEntry" where
  "installed_entry pkg =
     \<lparr> name = inst_name pkg,
       description = inst_description pkg,
       url = inst_url pkg,
       installed = (inst_installed pkg \<noteq> Some False),
       enabled = inst_enabled pkg,
       status = inst_status pkg,
       latest_version = inst_latest_version pkg,
       installed_version = inst_installed_version pkg \<rparr>"

fun translateInstalledLoop :: "dict \<Rightarrow> IInstalledEntry list \<Rightarrow> dict" where
  "translateInstalledLoop entries [] = entries"
| "translateInstalledLoop entries (pkg # rest) =
     translateInstalledLoop (dict_set entries (inst_name pkg) (installed_entry pkg)) rest"

definition translateInstalled :: "installed_body outcome \<Rightarrow> dict outcome" where
  "translateInstalled res =
     (case res of
        Rejected r \<Rightarrow> Rejected r
      | Fulfilled (Untranslatable r) \<Rightarrow> Rejected r
      | Fulfilled (Records pkgs) \<Rightarrow> Fulfilled (translateInstalledLoop empty_dict pkgs))"

text \<open>The invariant the data model states for an entry.\<close>

definition entry_invariant :: "IEntry \<Rightarrow> bool" where
  "entry_invariant e = (\<not> installed e \<longrightarrow> installed_version e = [] \<and> \<not> enabled e)"

definition wire_invariant :: "IInstalledEntry \<Rightarrow> bool" where
  "wire_invariant pkg =
     (inst_installed pkg = Some False \<longrightarrow> inst_installed_version pkg = [] \<and> \<not> inst_enabled pkg)"

subsection \<open>Companion packages and kernel specifications\<close>

text \<open>
  The shapes \<open>checkCompanionPackages\<close> and \<open>Private.matchSpecs\<close> read: the published
  metadata \<open>data.jupyterlab.discovery\<close> with its optional \<open>kernel\<close> list and \<open>server\<close>
  entry, and \<open>Kernel.ISpecModels\<close>, whose \<open>kernelspecs\<close> are given in the order in which
  \<open>Object.keys\<close> lists them. The contents of a server entry are never inspected.
\<close>

datatype IInstallInfo = InstallInfo string

record IKernelSpecPattern =
  ks_language :: "string option"
  ks_display_name :: "string option"

record IKernelInstallInfo =
  kernel_spec :: IKernelSpecPattern

record IDiscovery =
  kernel :: "IKernelInstallInfo list option"
  server :: "IInstallInfo option"

record IJupyterLabMeta =
  discovery :: "IDiscovery option"

record IJupyterLabPackageData =
  jupyterlab :: "IJupyterLabMeta option"

record ISpecModel =
  spec_name :: string
  spec_language :: string
  spec_display_name :: string

record ISpecModels =
  spec_default :: string
  kernelspecs :: "ISpecModel props"

record KernelCompanion =
  kc_kernelInfo :: IKernelInstallInfo
  kc_kernels :: "ISpecModel list"

subsection \<open>Collaborators\<close>

text \<open>
  Everything \<open>model.ts\<close> imports or reaches through \<open>serviceManager\<close>. A request to the
  server (\<open>new URL\<close> followed by \<open>ServerConnection.makeRequest\<close>) is a call: it may throw
  before a promise exists. \<open>new_RegExp\<close> is the constructor of a regular expression: it
  throws on a pattern that does not compile, and otherwise gives the \<open>test\<close> of the
  expression. \<open>isJupyterOrg_undefined\<close> is what \<open>isJupyterOrg\<close> does when it is handed
  \<open>undefined\<close>, outside its declared type.
\<close>

record world =
  searchExtensions :: "string \<Rightarrow> int \<Rightarrow> int \<Rightarrow> ISearchResult outcome"
  fetchPackageData :: "string \<Rightarrow> string \<Rightarrow> IJupyterLabPackageData option outcome"
  presentCompanions :: "KernelCompanion list \<Rightarrow> IInstallInfo option \<Rightarrow> bool outcome"
  requestInstalled :: "bool \<Rightarrow> installed_body response call"
  requestAction :: "action \<Rightarrow> string \<Rightarrow> IActionReply response call"
  serviceManager_specs :: "ISpecModels option"
  builder_isAvailable :: bool
  builder_getStatus :: "string outcome"
  builder_answers_first :: bool
  new_RegExp :: "string \<Rightarrow> reason + (string \<Rightarrow> bool)"
  isJupyterOrg :: "string \<Rightarrow> bool"
  isJupyterOrg_undefined :: "reason + bool"

subsection \<open>\<open>Private.comparator\<close> and the sort of a view\<close>

text \<open>
  The comparator reads \<open>a.name\<close> and \<open>b.name\<close> and returns 0 when they are equal;
  otherwise it asks \<open>isJupyterOrg\<close> about both and returns 0 for equal trust, -1 when
  only \<open>a\<close> is trusted, 1 otherwise. It throws when reading a name throws or
  \<open>isJupyterOrg\<close> does.
\<close>

definition trust :: "world \<Rightarrow> string option \<Rightarrow> reason + bool" where
  "trust w n = (case n of None \<Rightarrow> isJupyterOrg_undefined w | Some t \<Rightarrow> Inr (isJupyterOrg w t))"

definition comparator :: "world \<Rightarrow> jsval \<Rightarrow> jsval \<Rightarrow> reason + int" where
  "comparator w a b =
     (case name_of a of
        Inl r \<Rightarrow> Inl r
      | Inr nameA \<Rightarrow>
          (case name_of b of
             Inl r \<Rightarrow> Inl r
           | Inr nameB \<Rightarrow>
               if nameA = nameB then Inr 0
               else (case trust w nameA of
                       Inl r \<Rightarrow> Inl r
                     | Inr testA \<Rightarrow>
                         (case trust w nameB of
                            Inl r \<Rightarrow> Inl r
                          | Inr testB \<Rightarrow>
                              if testA = testB then Inr 0
                              else if testA \<and> \<not> testB then Inr (- 1)
                              else Inr 1))))"

text \<open>
  \<open>Array.prototype.sort\<close> with a comparison function, as ECMAScript prescribes it since
  the 2019 edition: a stable sort. It is written as insertion from the right, where an
  element is placed in front of the first element it does not compare greater than. An
  exception of the comparison function ends the sort.
\<close>

fun sort_insert :: "('a \<Rightarrow> 'a \<Rightarrow> reason + int) \<Rightarrow> 'a \<Rightarrow> 'a list \<Rightarrow> reason + 'a list" where
  "sort_insert cmp x [] = Inr [x]"
| "sort_insert cmp x (y # ys) =
     (case cmp x y of
        Inl r \<Rightarrow> Inl r
      | Inr c \<Rightarrow>
          if c \<le> 0 then Inr (x # y # ys)
          else (case sort_insert cmp x ys of
                  Inl r \<Rightarrow> Inl r
                | Inr zs \<Rightarrow> Inr (y # zs)))"

fun array_sort :: "('a \<Rightarrow> 'a \<Rightarrow> reason + int) \<Rightarrow> 'a list \<Rightarrow> reason + 'a list" where
  "array_sort cmp [] = Inr []"
| "array_sort cmp (x # xs) =
     (case array_sort cmp xs of
        Inl r \<Rightarrow> Inl r
      | Inr ys \<Rightarrow> sort_insert cmp x ys)"

subsection \<open>The model and its trace\<close>

datatype event =
    StateChanged
  | SearchExtensions string int int
  | GetInstalled bool
  | PostAction action string
  | FetchPackageData string string
  | PresentCompanions "KernelCompanion list" "IInstallInfo option"
  | ReportInstallError string "string option"
  | GetBuildStatus
  | DoBuild

text \<open>
  The fields of \<open>ListModel\<close>. \<open>installedView\<close> is \<open>_installed\<close> (the name \<open>installed\<close> is
  the field of \<open>IEntry\<close>); the views hold what the loops of \<open>update\<close> pushed; a promise in
  \<open>_pendingActions\<close> is known by its identity, a number drawn from the counter
  \<open>promises\<close>.
\<close>

record ListModel =
  installedView :: "jsval list"
  searchResult :: "jsval list"
  query :: "string option"
  page :: int
  pagination :: int
  totalEntries :: int
  installedError :: "string option"
  searchError :: "string option"
  serverConnectionError :: "string option"
  serverRequirementsError :: "string option"
  initialized :: bool
  promptBuild :: bool
  pendingActions :: "nat list"
  promises :: nat
  events :: "event list"

definition record_event :: "event \<Rightarrow> ListModel \<Rightarrow> ListModel" where
  "record_event e s = s\<lparr>events := events s @ [e]\<rparr>"

definition emit :: "ListModel \<Rightarrow> ListModel" where
  "emit s = record_event StateChanged s"

definition newPromise :: "ListModel \<Rightarrow> nat \<times> ListModel" where
  "newPromise s = (promises s, s\<lparr>promises := Suc (promises s)\<rparr>)"

subsection \<open>Pending actions\<close>

definition hasPendingActions :: "ListModel \<Rightarrow> bool" where
  "hasPendingActions s = (length (pendingActions s) > 0)"

text \<open>\<open>Array.prototype.indexOf\<close>: the first index of the element, or -1.\<close>

fun indexOf :: "'a list \<Rightarrow> 'a \<Rightarrow> int" where
  "indexOf [] x = - 1"
| "indexOf (y # ys) x =
     (if y = x then 0 else (let i = indexOf ys x in if i < 0 then - 1 else i + 1))"

text \<open>
  \<open>xs.splice(i, 1)\<close>: a negative start counts from the end (and not below 0), a start
  beyond the end is the end; one element is removed when there is one at the start.
\<close>

definition splice1 :: "int \<Rightarrow> 'a list \<Rightarrow> 'a list" where
  "splice1 i xs =
     (let len = int (length xs);
          start = (if i < 0 then max (len + i) 0 else min i len)
      in take (nat start) xs @ drop (Suc (nat start)) xs)"

text \<open>
  \<open>_addPendingAction\<close> up to its return: push and emit. The closure \<open>remove\<close> it
  registers with \<open>pending.then(remove, remove)\<close> is \<open>remove_pending\<close>, run when \<open>pending\<close>
  settles, whichever way.
\<close>

definition addPendingAction :: "nat \<Rightarrow> ListModel \<Rightarrow> ListModel" where
  "addPendingAction pending s = emit (s\<lparr>pendingActions := pendingActions s @ [pending]\<rparr>)"

definition remove_pending :: "nat \<Rightarrow> ListModel \<Rightarrow> ListModel" where
  "remove_pending pending s =
     (let i = indexOf (pendingActions s) pending
      in emit (s\<lparr>pendingActions := splice1 i (pendingActions s)\<rparr>))"

subsection \<open>The companion gate\<close>

text \<open>
  \<open>Private.matchSpecs\<close>. Without specifications it returns at once. A pattern is compiled
  when it is a non-empty string, the language first; \<open>new RegExp\<close> may throw. The loop
  visits the own keys of \<open>specs.kernelspecs\<close>, so \<open>specs.kernelspecs[key]\<close> is always
  there.
\<close>

definition truthy_string :: "string option \<Rightarrow> string option" where
  "truthy_string x = (case x of None \<Rightarrow> None | Some t \<Rightarrow> if t = [] then None else Some t)"

definition compile_pattern :: "world \<Rightarrow> string option \<Rightarrow> reason + (string \<Rightarrow> bool) option" where
  "compile_pattern w x =
     (case truthy_string x of
        None \<Rightarrow> Inr None
      | Some pattern \<Rightarrow>
          (case new_RegExp w pattern of
             Inl r \<Rightarrow> Inl r
           | Inr test \<Rightarrow> Inr (Some test)))"

definition spec_matches ::
  "(string \<Rightarrow> bool) option \<Rightarrow> (string \<Rightarrow> bool) option \<Rightarrow> ISpecModel \<Rightarrow> bool" where
  "spec_matches reLang reName spec =
     (let match = (case reLang of None \<Rightarrow> False | Some test \<Rightarrow> test (spec_language spec))
      in case reName of
           None \<Rightarrow> match
         | Some test \<Rightarrow> if \<not> match then test (spec_display_name spec) else match)"

definition matchSpecs ::
  "world \<Rightarrow> IKernelInstallInfo \<Rightarrow> ISpecModels option \<Rightarrow> reason + ISpecModel list" where
  "matchSpecs w kernelInfo specs =
     (case specs of
        None \<Rightarrow> Inr []
      | Some sp \<Rightarrow>
          (case compile_pattern w (ks_language (kernel_spec kernelInfo)) of
             Inl r \<Rightarrow> Inl r
           | Inr reLang \<Rightarrow>
               (case compile_pattern w (ks_display_name (kernel_spec kernelInfo)) of
                  Inl r \<Rightarrow> Inl r
                | Inr reName \<Rightarrow>
                    Inr (filter (spec_matches reLang reName)
                           (List.map_filter (props_get (kernelspecs sp))
                              (props_keys (kernelspecs sp)))))))"

text \<open>\<open>!data || !data.jupyterlab || !data.jupyterlab.discovery\<close> fails exactly here.\<close>

definition discovery_of :: "IJupyterLabPackageData option \<Rightarrow> IDiscovery option" where
  "discovery_of data =
     (case data of
        None \<Rightarrow> None
      | Some d \<Rightarrow> (case jupyterlab d of None \<Rightarrow> None | Some j \<Rightarrow> discovery j))"

text \<open>The loop over \<open>discovery.kernel\<close>: an exception of \<open>matchSpecs\<close> ends it.\<close>

fun kernelCompanions_loop :: "world \<Rightarrow> IKernelInstallInfo list \<Rightarrow> reason + KernelCompanion list" where
  "kernelCompanions_loop w [] = Inr []"
| "kernelCompanions_loop w (kernelInfo # rest) =
     (case matchSpecs w kernelInfo (serviceManager_specs w) of
        Inl r \<Rightarrow> Inl r
      | Inr matches \<Rightarrow>
          (case kernelCompanions_loop w rest of
             Inl r \<Rightarrow> Inl r
           | Inr companions \<Rightarrow>
               Inr (\<lparr> kc_kernelInfo = kernelInfo, kc_kernels = matches \<rparr> # companions)))"

definition kernelCompanions_of :: "world \<Rightarrow> IDiscovery \<Rightarrow> reason + KernelCompanion list" where
  "kernelCompanions_of w disc =
     (case kernel disc of
        None \<Rightarrow> Inr []
      | Some infos \<Rightarrow> kernelCompanions_loop w infos)"

text \<open>
  \<open>checkCompanionPackages\<close>. Everything after the fetch runs in the \<open>then\<close> callback, so
  an exception there rejects the promise the method returns.
\<close>

definition checkCompanionPackages :: "IEntry \<Rightarrow> world \<Rightarrow> ListModel \<Rightarrow> bool outcome \<times> ListModel" where
  "checkCompanionPackages entry w s =
     (let s1 = record_event (FetchPackageData (name entry) (latest_version entry)) s
      in case fetchPackageData w (name entry) (latest_version entry) of
           Rejected r \<Rightarrow> (Rejected r, s1)
         | Fulfilled data \<Rightarrow>
             (case discovery_of data of
                None \<Rightarrow> (Fulfilled True, s1)
              | Some disc \<Rightarrow>
                  (case kernelCompanions_of w disc of
                     Inl r \<Rightarrow> (Rejected r, s1)
                   | Inr kernelCompanions \<Rightarrow>
                       if length kernelCompanions < 1 \<and> server disc = None
                       then (Fulfilled True, s1)
                       else (presentCompanions w kernelCompanions (server disc),
                             record_event (PresentCompanions kernelCompanions (server disc))
                               s1))))"

subsection \<open>Build check\<close>

text \<open>
  \<open>triggerBuildCheck\<close> up to its return: the status request and \<open>_addPendingAction\<close>; it
  hands back the promise it tracks, if any. \<open>buildStatus_arrives\<close> is what runs when the
  builder has answered: the callback on the status, then \<open>remove\<close>.
\<close>

definition triggerBuildCheck :: "world \<Rightarrow> ListModel \<Rightarrow> nat option \<times> ListModel" where
  "triggerBuildCheck w s =
     (if builder_isAvailable w \<and> \<not> promptBuild s then
        (let s1 = record_event GetBuildStatus s;
             (completed, s2) = newPromise s1
         in (Some completed, addPendingAction completed s2))
      else (None, s))"

definition buildStatus_arrives :: "nat \<Rightarrow> world \<Rightarrow> ListModel \<Rightarrow> ListModel" where
  "buildStatus_arrives completed w s =
     remove_pending completed
       (case builder_getStatus w of
          Rejected r \<Rightarrow> s
        | Fulfilled response \<Rightarrow>
            if response = ''building'' then record_event DoBuild s
            else if response \<noteq> ''needed'' then s
            else if \<not> promptBuild s then emit (s\<lparr>promptBuild := True\<rparr>)
            else s)"

definition settle_buildCheck :: "nat option \<Rightarrow> world \<Rightarrow> ListModel \<Rightarrow> ListModel" where
  "settle_buildCheck tracked w s =
     (case tracked of None \<Rightarrow> s | Some completed \<Rightarrow> buildStatus_arrives completed w s)"

subsection \<open>The reconciliation pass\<close>

text \<open>
  \<open>fetchInstalled\<close>: the request; \<open>handleError\<close> and \<open>json()\<close> in its \<open>then\<close>; the two
  callbacks that clear or set \<open>serverConnectionError\<close>. When the request throws, no
  callback has been registered.
\<close>

definition fetchInstalled ::
  "bool \<Rightarrow> world \<Rightarrow> ListModel \<Rightarrow> installed_body call \<times> ListModel" where
  "fetchInstalled refreshInstalled w s =
     (let s1 = record_event (GetInstalled refreshInstalled) s
      in case requestInstalled w refreshInstalled of
           Throws r \<Rightarrow> (Throws r, s1)
         | Returns answer \<Rightarrow>
             (let request =
                    (case answer of
                       Rejected r \<Rightarrow> Rejected r
                     | Fulfilled response \<Rightarrow>
                         (case handleError response of
                            Inl err \<Rightarrow> Rejected err
                          | Inr checked \<Rightarrow> resp_json checked))
              in (Returns request,
                  s1\<lparr>serverConnectionError :=
                        (case request of
                           Fulfilled body \<Rightarrow> None
                         | Rejected r \<Rightarrow> Some (toString r))\<rparr>)))"

definition performSearch :: "world \<Rightarrow> ListModel \<Rightarrow> dict \<times> ListModel" where
  "performSearch w s =
     (case query s of
        None \<Rightarrow> (empty_dict, s\<lparr>searchResult := [], totalEntries := 0, searchError := None\<rparr>)
      | Some q \<Rightarrow>
          (let s1 = record_event (SearchExtensions q (page s) (pagination s)) s;
               search = searchExtensions w q (page s) (pagination s);
               (searchMap, s2) =
                  (case translateSearchResult search of
                     Fulfilled m \<Rightarrow> (m, s1\<lparr>searchError := None\<rparr>)
                   | Rejected r \<Rightarrow> (empty_dict, s1\<lparr>searchError := Some (toString r)\<rparr>));
               s3 = s2\<lparr>totalEntries :=
                         (case search of Fulfilled res \<Rightarrow> total res | Rejected r \<Rightarrow> 0)\<rparr>
           in (searchMap, s3)))"

text \<open>
  \<open>queryInstalled\<close>: the \<open>try\<close> block holds the call of \<open>fetchInstalled\<close> and the
  translation, so the \<open>catch\<close> receives an exception of the request, a rejected request
  and a failed translation alike.
\<close>

definition queryInstalled :: "bool \<Rightarrow> world \<Rightarrow> ListModel \<Rightarrow> dict \<times> ListModel" where
  "queryInstalled refreshInstalled w s =
     (case fetchInstalled refreshInstalled w s of
        (Throws r, s1) \<Rightarrow> (empty_dict, s1\<lparr>installedError := Some (toString r)\<rparr>)
      | (Returns request, s1) \<Rightarrow>
          (case translateInstalled request of
             Fulfilled m \<Rightarrow> (m, s1\<lparr>installedError := None\<rparr>)
           | Rejected r \<Rightarrow> (empty_dict, s1\<lparr>installedError := Some (toString r)\<rparr>)))"

text \<open>
  The two loops of \<open>update\<close> over \<open>Object.keys\<close>. In the second one
  \<open>installedMap[key] === undefined\<close> is decided by the read through the prototype chain.
\<close>

definition installed_of :: "dict \<Rightarrow> jsval list" where
  "installed_of installedMap = List.map_filter (dict_get installedMap) (dict_keys installedMap)"

definition merged_of :: "dict \<Rightarrow> dict \<Rightarrow> jsval list" where
  "merged_of searchMap installedMap =
     List.map_filter
       (\<lambda>key. case dict_get installedMap key of
                 None \<Rightarrow> dict_get searchMap key
               | Some v \<Rightarrow> Some v)
       (dict_keys searchMap)"

text \<open>
  The rest of \<open>update\<close>, after both channels have answered: each view is assigned once
  its sort has returned, and the signal is emitted at the end. An exception of a sort
  rejects the promise of \<open>update\<close> and leaves the rest undone.
\<close>

definition publish :: "world \<Rightarrow> dict \<Rightarrow> dict \<Rightarrow> ListModel \<Rightarrow> unit outcome \<times> ListModel" where
  "publish w searchMap installedMap s =
     (case array_sort (comparator w) (installed_of installedMap) of
        Inl r \<Rightarrow> (Rejected r, s)
      | Inr sortedInstalled \<Rightarrow>
          (let s1 = s\<lparr>installedView := sortedInstalled\<rparr>
           in case array_sort (comparator w) (merged_of searchMap installedMap) of
                Inl r \<Rightarrow> (Rejected r, s1)
              | Inr sortedSearch \<Rightarrow> (Fulfilled (), emit (s1\<lparr>searchResult := sortedSearch\<rparr>))))"

definition update_promise :: "bool \<Rightarrow> world \<Rightarrow> ListModel \<Rightarrow> unit outcome \<times> ListModel" where
  "update_promise refreshInstalled w s =
     (let (searchMap, s1) = performSearch w s;
          (installedMap, s2) = queryInstalled refreshInstalled w s1
      in publish w searchMap installedMap s2)"

text \<open>Every caller in this file drops the promise of \<open>update\<close>.\<close>

definition update :: "bool \<Rightarrow> world \<Rightarrow> ListModel \<Rightarrow> ListModel" where
  "update refreshInstalled w s = snd (update_promise refreshInstalled w s)"

text \<open>The setter of \<open>query\<close>: it stores the value and starts a pass.\<close>

definition set_query :: "string option \<Rightarrow> world \<Rightarrow> ListModel \<Rightarrow> ListModel" where
  "set_query v w s = update False w (s\<lparr>query := v\<rparr>)"

subsection \<open>Actions\<close>

text \<open>
  \<open>_performAction\<close>. When the request throws, nothing has been registered or tracked
  and the exception leaves the method. Otherwise the method is followed to the settling
  of \<open>completed\<close>: the tracking of \<open>completed\<close>, the \<open>then\<close> on the response
  (\<open>handleError\<close>, \<open>triggerBuildCheck\<close>, \<open>json()\<close>), and the callbacks registered on
  \<open>completed\<close> in their order: the one on \<open>serverConnectionError\<close>, then \<open>remove\<close>. The
  caller's \<open>then\<close> comes after these. The second component is the promise of a build
  check that is still waiting for the builder.
\<close>

definition performAction ::
  "action \<Rightarrow> IEntry \<Rightarrow> world \<Rightarrow> ListModel \<Rightarrow> IActionReply call \<times> nat option \<times> ListModel" where
  "performAction act entry w s =
     (let s1 = record_event (PostAction act (name entry)) s
      in case requestAction w act (name entry) of
           Throws r \<Rightarrow> (Throws r, None, s1)
         | Returns answer \<Rightarrow>
             (let (pending, s2) = newPromise s1;
                  s3 = addPendingAction pending s2;
                  (completed, waiting, s4) =
                     (case answer of
                        Rejected r \<Rightarrow> (Rejected r, None, s3)
                      | Fulfilled response \<Rightarrow>
                          (case handleError response of
                             Inl err \<Rightarrow> (Rejected err, None, s3)
                           | Inr checked \<Rightarrow>
                               (let (tracked, t) = triggerBuildCheck w s3
                                in if builder_answers_first w
                                   then (resp_json checked, None, settle_buildCheck tracked w t)
                                   else (resp_json checked, tracked, t))));
                  s5 = s4\<lparr>serverConnectionError :=
                            (case completed of
                               Fulfilled data \<Rightarrow> None
                             | Rejected r \<Rightarrow> Some (toString r))\<rparr>
              in (Returns completed, waiting, remove_pending pending s5)))"

text \<open>
  \<open>_performAction('install', entry).then(data => ...)\<close>, the chain both branches of
  \<open>install\<close> build; the callback runs on fulfilment only. The first component of the
  result is the exception that leaves the expression, if any.
\<close>

definition install_then :: "IEntry \<Rightarrow> world \<Rightarrow> ListModel \<Rightarrow> reason option \<times> ListModel" where
  "install_then entry w s =
     (case performAction Install entry w s of
        (Throws r, waiting, s1) \<Rightarrow> (Some r, s1)
      | (Returns (Rejected r), waiting, s1) \<Rightarrow> (None, settle_buildCheck waiting w s1)
      | (Returns (Fulfilled data), waiting, s1) \<Rightarrow>
          (None,
           settle_buildCheck waiting w
             (update False w
                (if reply_status data \<noteq> Some OK
                 then record_event (ReportInstallError (name entry) (reply_message data)) s1
                 else s1))))"

text \<open>
  The four action methods. The first component of the result is the exception thrown to
  the caller, if any. In \<open>install\<close> of an entry that is not installed the chain is built
  inside a \<open>then\<close> callback, where an exception only rejects a promise nobody holds.
\<close>

definition install :: "IEntry \<Rightarrow> world \<Rightarrow> ListModel \<Rightarrow> reason option \<times> ListModel" where
  "install entry w s =
     (if installed entry then install_then entry w s
      else (case checkCompanionPackages entry w s of
              (Rejected r, s1) \<Rightarrow> (None, s1)
            | (Fulfilled shouldInstall, s1) \<Rightarrow>
                (None, if shouldInstall then snd (install_then entry w s1) else s1)))"

definition action_then :: "action \<Rightarrow> IEntry \<Rightarrow> world \<Rightarrow> ListModel \<Rightarrow> reason option \<times> ListModel" where
  "action_then act entry w s =
     (case performAction act entry w s of
        (Throws r, waiting, s1) \<Rightarrow> (Some r, s1)
      | (Returns (Rejected r), waiting, s1) \<Rightarrow> (None, settle_buildCheck waiting w s1)
      | (Returns (Fulfilled data), waiting, s1) \<Rightarrow>
          (None, settle_buildCheck waiting w (update False w s1)))"

definition uninstall :: "IEntry \<Rightarrow> world \<Rightarrow> ListModel \<Rightarrow> reason option \<times> ListModel" where
  "uninstall entry w s =
     (if \<not> installed entry
      then (Some (Error (''Not installed, cannot uninstall: '' @ name entry)), s)
      else action_then Uninstall entry w s)"

definition enable :: "IEntry \<Rightarrow> world \<Rightarrow> ListModel \<Rightarrow> reason option \<times> ListModel" where
  "enable entry w s =
     (if enabled entry
      then (Some (Error (''Already enabled: '' @ name entry)), s)
      else action_then Enable entry w s)"

definition disable :: "IEntry \<Rightarrow> world \<Rightarrow> ListModel \<Rightarrow> reason option \<times> ListModel" where
  "disable entry w s =
     (if \<not> enabled entry
      then (Some (Error (''Already disabled: '' @ name entry)), s)
      else action_then Disable entry w s)"

subsection \<open>\<open>ListModel.entryHasUpdate\<close>\<close>

text \<open>
  \<open>!entry.latest_version\<close> holds for the empty string. \<open>semver.lt\<close> is a parameter: it
  throws a \<open>TypeError\<close> on a string that is not a version, and the exception leaves
  \<open>entryHasUpdate\<close>.
\<close>

definition entryHasUpdate :: "(string \<Rightarrow> string \<Rightarrow> reason + bool) \<Rightarrow> IEntry \<Rightarrow> reason + bool" where
  "entryHasUpdate lt entry =
     (if \<not> installed entry \<or> latest_version entry = [] then Inr False
      else lt (installed_version entry) (latest_version entry))"

subsection \<open>Notions used in the statements\<close>

text \<open>
  A dictionary built by the translations has distinct own keys, stores every entry under
  its own name, and has no own key \<open>__proto__\<close>.
\<close>

definition keyed :: "dict \<Rightarrow> bool" where
  "keyed d =
     (distinct (dict_keys d) \<and> (\<forall>(k, e) \<in> set (props d). name e = k)
      \<and> ''__proto__'' \<notin> set (dict_keys d))"

text \<open>
  The entries a translation hands over: the own values of the dictionary it resolves
  to, and the entry that has become its prototype, if any.
\<close>

definition entries_produced :: "dict outcome \<Rightarrow> IEntry set" where
  "entries_produced r =
     (case r of
        Fulfilled d \<Rightarrow> snd ` set (props d) \<union> set_option (proto d)
      | Rejected x \<Rightarrow> {})"

text \<open>
  Trust of an entry, and the arrangement the sort is shown to produce: the trusted
  ones in their given order, followed by the others in their given order.
\<close>

definition trusted :: "world \<Rightarrow> IEntry \<Rightarrow> bool" where
  "trusted w e = isJupyterOrg w (name e)"

definition trusted_first :: "('a \<Rightarrow> bool) \<Rightarrow> 'a list \<Rightarrow> 'a list" where
  "trusted_first P xs = filter P xs @ filter (\<lambda>x. \<not> P x) xs"

text \<open>
  The trust the comparator finds for an element of a view, when reading its name and
  asking \<open>isJupyterOrg\<close> about it both return; \<open>before\<close> is the order the comparator
  tests: equal trust, or the trusted element first.
\<close>

definition rank :: "world \<Rightarrow> jsval \<Rightarrow> bool option" where
  "rank w v =
     (case name_of v of
        Inl r \<Rightarrow> None
      | Inr n \<Rightarrow> (case trust w n of Inl r \<Rightarrow> None | Inr t \<Rightarrow> Some t))"

definition before :: "world \<Rightarrow> jsval \<Rightarrow> jsval \<Rightarrow> bool" where
  "before w a b = (rank w a = rank w b \<or> (rank w a = Some True \<and> rank w b = Some False))"

text \<open>
  A plain name is neither an array index nor the key of a property that every object
  inherits.
\<close>

definition plain :: "string \<Rightarrow> bool" where
  "plain key = (array_index key = None \<and> key \<notin> set object_prototype_keys)"

text \<open>What the second loop of \<open>update\<close> pushes for a pair of the search dictionary.\<close>

definition merged_item :: "dict \<Rightarrow> string \<times> IEntry \<Rightarrow> jsval" where
  "merged_item installedMap p =
     (case dict_get installedMap (fst p) of None \<Rightarrow> Entry (snd p) | Some v \<Rightarrow> v)"

text \<open>The name a view shows at a position, when an entry stands there.\<close>

definition entry_name :: "jsval \<Rightarrow> string option" where
  "entry_name v = (case v of Entry e \<Rightarrow> Some (name e) | _ \<Rightarrow> None)"

text \<open>The names of the entries of a view, in order.\<close>

definition shown_names :: "jsval list \<Rightarrow> string list" where
  "shown_names view = List.map_filter entry_name view"

text \<open>The elements of a list at their first occurrence, in order.\<close>

definition first_occurrences :: "'a list \<Rightarrow> 'a list" where
  "first_occurrences xs = rev (remdups (rev xs))"

text \<open>
  How the promise built on a response settles: a rejected request and a response that
  is not \<open>ok\<close> reject it, otherwise it settles as \<open>response.json()\<close> does.
\<close>

definition reply_of :: "'a response outcome \<Rightarrow> 'a outcome" where
  "reply_of answer =
     (case answer of
        Rejected r \<Rightarrow> Rejected r
      | Fulfilled response \<Rightarrow>
          if resp_ok response then resp_json response
          else Rejected (Error (decimal (resp_status response) @ '' ('' @
                                 resp_statusText response @ '')'')))"

text \<open>
  The wire records the installed-query channel translates in a pass, and the packages
  the search channel stores; none when the channel fails or is skipped.
\<close>

definition installed_reply :: "bool \<Rightarrow> world \<Rightarrow> IInstalledEntry list" where
  "installed_reply refreshInstalled w =
     (case requestInstalled w refreshInstalled of
        Throws r \<Rightarrow> []
      | Returns answer \<Rightarrow>
          (case reply_of answer of
             Fulfilled (Records pkgs) \<Rightarrow> pkgs
           | Fulfilled (Untranslatable r) \<Rightarrow> []
           | Rejected r \<Rightarrow> []))"

definition search_reply :: "world \<Rightarrow> ListModel \<Rightarrow> IPackage list" where
  "search_reply w s =
     (case query s of
        None \<Rightarrow> []
      | Some q \<Rightarrow>
          (case searchExtensions w q (page s) (pagination s) of
             Fulfilled res \<Rightarrow> filter (\<lambda>pkg. ''deprecated'' \<notin> set (pkg_keywords pkg)) (objects res)
           | Rejected r \<Rightarrow> []))"

text \<open>What a channel leaves in its error slot once its promise has settled.\<close>

definition slot :: "'a outcome \<Rightarrow> string option" where
  "slot r = (case r of Fulfilled x \<Rightarrow> None | Rejected e \<Rightarrow> Some (toString e))"

text \<open>The exception a call throws to its caller, if any.\<close>

definition thrown_by :: "'a call \<Rightarrow> reason option" where
  "thrown_by c = (case c of Throws r \<Rightarrow> Some r | Returns answer \<Rightarrow> None)"

text \<open>
  A reconciliation pass sets out exactly once to request the installed extensions, and
  nothing else does: the passes in a trace are counted by these requests.
\<close>

fun passes :: "event list \<Rightarrow> nat" where
  "passes [] = 0"
| "passes (GetInstalled r # es) = Suc (passes es)"
| "passes (e # es) = passes es"

text \<open>
  How \<open>_performAction\<close> ends: fulfilled with the reply of the server, or failed with a
  reason, because the request threw, was rejected or was not \<open>ok\<close>, or because its body
  could not be read.
\<close>

definition completed_of :: "world \<Rightarrow> action \<Rightarrow> IEntry \<Rightarrow> IActionReply outcome" where
  "completed_of w act entry =
     (case requestAction w act (name entry) of
        Throws r \<Rightarrow> Rejected r
      | Returns answer \<Rightarrow> reply_of answer)"

fun is_fulfilled :: "'a outcome \<Rightarrow> bool" where
  "is_fulfilled (Fulfilled x) = True"
| "is_fulfilled (Rejected r) = False"





text \<open>
  Histories of the pending-action tracker: a promise is added, or a promise settles
  (fulfilled or rejected) and its \<open>remove\<close> callback runs. \<open>outstanding\<close> is the bag of
  promises added and not yet settled; \<open>settles_tracked\<close> says that only promises that
  are outstanding settle, as \<open>remove\<close> is registered by \<open>_addPendingAction\<close> alone and a
  promise settles once.
\<close>

datatype tracker_op = Add nat | Settle nat bool

fun tracker_step :: "tracker_op \<Rightarrow> ListModel \<Rightarrow> ListModel" where
  "tracker_step (Add pending) s = addPendingAction pending s"
| "tracker_step (Settle pending fulfilled) s = remove_pending pending s"

fun tracker_run :: "tracker_op list \<Rightarrow> ListModel \<Rightarrow> ListModel" where
  "tracker_run [] s = s"
| "tracker_run (op # ops) s = tracker_run ops (tracker_step op s)"

fun outstanding :: "nat multiset \<Rightarrow> tracker_op list \<Rightarrow> nat multiset" where
  "outstanding acc [] = acc"
| "outstanding acc (Add pending # ops) = outstanding (add_mset pending acc) ops"
| "outstanding acc (Settle pending fulfilled # ops) = outstanding (acc - {#pending#}) ops"

fun settles_tracked :: "nat multiset \<Rightarrow> tracker_op list \<Rightarrow> bool" where
  "settles_tracked acc [] = True"
| "settles_tracked acc (Add pending # ops) = settles_tracked (add_mset pending acc) ops"
| "settles_tracked acc (Settle pending fulfilled # ops) =
     (pending \<in># acc \<and> settles_tracked (acc - {#pending#}) ops)"

text \<open>The model after the constructor and the field initialisers.\<close>

definition initial :: ListModel where
  "initial =
     \<lparr> installedView = [], searchResult = [], query = None, page = 0, pagination = 250,
       totalEntries = 0, installedError = None, searchError = None,
       serverConnectionError = None, serverRequirementsError = None, initialized = False,
       promptBuild = False, pendingActions = [], promises = 0, events = [] \<rparr>"

text \<open>
  Sample collaborators for concrete runs: a registry with two packages, a server with one
  installed extension, replies with status 200 and 500, a regular expression engine that
  rejects the pattern \<open>+\<close>, a \<open>semver.lt\<close> that rejects the empty string.
\<close>

definition sample_ok :: "'a \<Rightarrow> 'a response" where
  "sample_ok body =
     \<lparr> resp_ok = True, resp_status = 200, resp_statusText = ''OK'', resp_json = Fulfilled body \<rparr>"

definition sample_500 :: "'a response" where
  "sample_500 =
     \<lparr> resp_ok = False, resp_status = 500, resp_statusText = ''Internal Server Error'',
       resp_json = Rejected (Thrown ''SyntaxError'') \<rparr>"

definition sample_package :: "string \<Rightarrow> IPackage" where
  "sample_package n =
     \<lparr> pkg_name = n, pkg_description = ''from the registry'', pkg_version = ''2.0.0'',
       pkg_keywords = [''jupyterlab-extension''],
       pkg_links = \<lparr> homepage = None, repository = None, npm = ''npm'' \<rparr> \<rparr>"

definition sample_installed :: "string \<Rightarrow> IInstalledEntry" where
  "sample_installed n =
     \<lparr> inst_name = n, inst_description = ''from the server'', inst_url = ''url'',
       inst_installed = None, inst_enabled = True, inst_latest_version = ''2.0.0'',
       inst_installed_version = ''1.0.0'', inst_status = Some OK \<rparr>"

definition sample_world :: world where
  "sample_world =
     \<lparr> searchExtensions = (\<lambda>q p n. Fulfilled
          \<lparr> objects = [sample_package ''zeta'', sample_package ''@jupyterlab/alpha''],
            total = 2 \<rparr>),
       fetchPackageData = (\<lambda>n v. Fulfilled None),
       presentCompanions = (\<lambda>ks srv. Fulfilled False),
       requestInstalled = (\<lambda>r. Returns (Fulfilled (sample_ok (Records [sample_installed ''zeta''])))),
       requestAction = (\<lambda>a n. Returns (Fulfilled
          (sample_ok \<lparr> reply_status = Some OK, reply_message = None \<rparr>))),
       serviceManager_specs = Some \<lparr> spec_default = ''python3'', kernelspecs =
          [(''python3'', \<lparr> spec_name = ''python3'', spec_language = ''python'',
                          spec_display_name = ''Python 3'' \<rparr>)] \<rparr>,
       builder_isAvailable = False,
       builder_getStatus = Fulfilled ''needed'',
       builder_answers_first = False,
       new_RegExp = (\<lambda>pattern. if pattern = ''+''
                                then Inl (Thrown ''SyntaxError: Nothing to repeat'')
                                else Inr (\<lambda>subject. pattern = subject)),
       isJupyterOrg = (\<lambda>n. take 12 n = ''@jupyterlab/''),
       isJupyterOrg_undefined = Inl (Thrown ''TypeError'') \<rparr>"


definition sample_lt :: "string \<Rightarrow> string \<Rightarrow> reason + bool" where
  "sample_lt a b =
     (if a = [] \<or> b = [] then Inl (Thrown ''TypeError: Invalid Version: '')
      else Inr (a = ''1.0.0'' \<and> b = ''2.0.0''))"

section \<open>Properties\<close>

subsection \<open>Dictionaries\<close>

lemma set_props_put: "set (props_put m key v) \<subseteq> insert (key, v) (set m)"
  by (induction m key v rule: props_put.induct) auto

lemma keys_props_put:
  "map fst (props_put m key v) =
     (if key \<in> set (map fst m) then map fst m else map fst m @ [key])"
  by (induction m key v rule: props_put.induct) auto

lemma set_props_insert: "set (props_insert m key n v) = insert (key, v) (set m)"
  by (induction m key n v rule: props_insert.induct) (auto split: option.splits)

lemma distinct_props_insert:
  "distinct (map fst (props_insert m key n v)) \<longleftrightarrow>
     key \<notin> set (map fst m) \<and> distinct (map fst m)"
proof (induction m key n v rule: props_insert.induct)
  case (1 key n v)
  then show ?case by simp
next
  case (2 k w m key n v)
  have s: "fst ` set (props_insert m key n v) = insert key (fst ` set m)"
    by (simp add: set_props_insert)
  show ?case
  proof (cases "array_index k")
    case None
    then show ?thesis by auto
  next
    case (Some i)
    with 2 s show ?thesis by (cases "n < i") auto
  qed
qed

lemma set_props_set: "set (props_set m key v) \<subseteq> insert (key, v) (set m)"
  using set_props_put[of m key v]
  by (auto simp: props_set_def set_props_insert split: option.splits)

lemma keyset_props_put: "fst ` set (props_put m key v) = insert key (fst ` set m)"
  by (induction m key v rule: props_put.induct) auto

lemma keys_props_set: "fst ` set (props_set m key v) = insert key (fst ` set m)"
  by (simp add: props_set_def keyset_props_put set_props_insert split: option.splits)

lemma distinct_props_set:
  "distinct (map fst m) \<Longrightarrow> distinct (map fst (props_set m key v))"
  by (auto simp: props_set_def keys_props_put distinct_props_insert split: option.splits)

lemma props_set_plain: "array_index key = None \<Longrightarrow> props_set m key v = props_put m key v"
  by (simp add: props_set_def)

lemma keyed_empty: "keyed empty_dict"
  by (simp add: keyed_def empty_dict_def dict_keys_def props_keys_def)

lemma keyed_dict_set: "keyed d \<Longrightarrow> name e = key \<Longrightarrow> keyed (dict_set d key e)"
proof (cases "key = ''__proto__''")
  case True
  assume "keyed d"
  with True show ?thesis
    by (simp add: keyed_def dict_set_def dict_keys_def)
next
  case False
  assume k: "keyed d" and n: "name e = key"
  from k have "distinct (map fst (props_set (props d) key e))"
    by (simp add: keyed_def dict_keys_def props_keys_def distinct_props_set)
  moreover from k n have "\<forall>(k, x) \<in> set (props_set (props d) key e). name x = k"
    using set_props_set[of "props d" key e] by (auto simp: keyed_def)
  moreover from k False have "''__proto__'' \<notin> set (map fst (props_set (props d) key e))"
    using keys_props_set[of "props d" key e]
    by (auto simp: keyed_def dict_keys_def props_keys_def)
  ultimately show ?thesis
    using False by (simp add: keyed_def dict_set_def dict_keys_def props_keys_def)
qed

lemma produced_dict_set:
  "snd ` set (props (dict_set d key e)) \<union> set_option (proto (dict_set d key e))
     \<subseteq> insert e (snd ` set (props d) \<union> set_option (proto d))"
  using set_props_set[of "props d" key e] by (auto simp: dict_set_def)

lemma keyed_get: "keyed d \<Longrightarrow> (k, e) \<in> set (props d) \<Longrightarrow> props_get (props d) k = Some e"
  by (simp add: keyed_def dict_keys_def props_keys_def props_get_def)

lemma keyed_name: "keyed d \<Longrightarrow> props_get (props d) k = Some e \<Longrightarrow> name e = k"
  by (auto simp: keyed_def props_get_def dest: map_of_SomeD)

lemma own_key_iff: "key \<in> set (dict_keys d) \<longleftrightarrow> props_get (props d) key \<noteq> None"
  by (simp add: dict_keys_def props_keys_def props_get_def map_of_eq_None_iff)

subsection \<open>The translations\<close>

lemma keyed_translateSearchLoop: "keyed acc \<Longrightarrow> keyed (translateSearchLoop acc pkgs)"
  by (induction acc pkgs rule: translateSearchLoop.induct)
     (auto simp: keyed_dict_set search_entry_def)

lemma keyed_translateInstalledLoop: "keyed acc \<Longrightarrow> keyed (translateInstalledLoop acc pkgs)"
  by (induction acc pkgs rule: translateInstalledLoop.induct)
     (auto simp: keyed_dict_set installed_entry_def)

lemma values_translateSearchLoop:
  "e \<in> snd ` set (props (translateSearchLoop acc pkgs))
         \<union> set_option (proto (translateSearchLoop acc pkgs)) \<Longrightarrow>
     e \<in> snd ` set (props acc) \<union> set_option (proto acc) \<or>
     (\<exists>pkg \<in> set pkgs. ''deprecated'' \<notin> set (pkg_keywords pkg) \<and> e = search_entry pkg)"
proof (induction acc pkgs rule: translateSearchLoop.induct)
  case (1 entries)
  then show ?case by simp
next
  case (2 entries pkg rest)
  show ?case
  proof (cases "''deprecated'' \<in> set (pkg_keywords pkg)")
    case True
    with 2 show ?thesis by auto
  next
    case False
    let ?d = "dict_set entries (pkg_name pkg) (search_entry pkg)"
    from 2 False have "e \<in> snd ` set (props ?d) \<union> set_option (proto ?d) \<or>
       (\<exists>p \<in> set rest. ''deprecated'' \<notin> set (pkg_keywords p) \<and> e = search_entry p)"
      by simp
    with False produced_dict_set[of entries "pkg_name pkg" "search_entry pkg"]
    show ?thesis by auto
  qed
qed

lemma values_translateInstalledLoop:
  "e \<in> snd ` set (props (translateInstalledLoop acc pkgs))
         \<union> set_option (proto (translateInstalledLoop acc pkgs)) \<Longrightarrow>
     e \<in> snd ` set (props acc) \<union> set_option (proto acc) \<or>
     (\<exists>pkg \<in> set pkgs. e = installed_entry pkg)"
proof (induction acc pkgs rule: translateInstalledLoop.induct)
  case (1 entries)
  then show ?case by simp
next
  case (2 entries pkg rest)
  let ?d = "dict_set entries (inst_name pkg) (installed_entry pkg)"
  from 2 have "e \<in> snd ` set (props ?d) \<union> set_option (proto ?d) \<or>
       (\<exists>p \<in> set rest. e = installed_entry p)"
    by simp
  with produced_dict_set[of entries "inst_name pkg" "installed_entry pkg"]
  show ?case by auto
qed

lemma installed_entry_invariant: "entry_invariant (installed_entry pkg) = wire_invariant pkg"
  by (auto simp: entry_invariant_def wire_invariant_def installed_entry_def)

text \<open>
  Claim C4, as stated: every entry produced by either translation satisfies the invariant
  that \<open>installed = false\<close> implies an empty \<open>installed_version\<close> and \<open>enabled = false\<close>.
  This fails for \<open>translateInstalled\<close>: a wire record with \<open>installed: false\<close> and a
  non-empty \<open>installed_version\<close> is copied field by field.
\<close>

theorem translateInstalled_breaks_invariant:
  "translateInstalled (Fulfilled (Records
      [\<lparr> inst_name = ''ext'', inst_description = [], inst_url = [],
         inst_installed = Some False, inst_enabled = False, inst_latest_version = ''1.0.0'',
         inst_installed_version = ''1.0.0'', inst_status = Some WARNING \<rparr>]))
   = Fulfilled \<lparr> props = [(''ext'', \<lparr> name = ''ext'', description = [], url = [],
         installed = False, enabled = False, status = Some WARNING,
         latest_version = ''1.0.0'', installed_version = ''1.0.0'' \<rparr>)], proto = None \<rparr>
   \<and> \<not> entry_invariant \<lparr> name = ''ext'', description = [], url = [], installed = False,
         enabled = False, status = Some WARNING, latest_version = ''1.0.0'',
         installed_version = ''1.0.0'' \<rparr>"
  by (simp add: translateInstalled_def installed_entry_def entry_invariant_def empty_dict_def
        dict_set_def props_set_def array_index_def digit_value_def)

text \<open>
  Claim C4, amended: every entry produced by the search-result translation has
  \<open>installed = false\<close>, \<open>enabled = false\<close> and an empty \<open>installed_version\<close>, so it
  satisfies the invariant; every entry produced by the installed-list translation is the
  field-by-field copy of a wire record of the reply (with \<open>installed\<close> set to
  \<open>pkg.installed !== false\<close>), and satisfies the invariant exactly when that wire record
  does.
\<close>

theorem translation_invariant:
  "(\<forall>e \<in> entries_produced (translateSearchResult res).
       \<not> installed e \<and> \<not> enabled e \<and> installed_version e = [] \<and> entry_invariant e)
   \<and> (\<forall>e \<in> entries_produced (translateInstalled (Fulfilled (Records pkgs))).
         \<exists>pkg \<in> set pkgs. e = installed_entry pkg \<and>
           (entry_invariant e \<longleftrightarrow> wire_invariant pkg))"
proof (rule conjI; rule ballI)
  fix e assume "e \<in> entries_produced (translateSearchResult res)"
  then obtain r :: ISearchResult
    where "e \<in> snd ` set (props (translateSearchLoop empty_dict (objects r)))
              \<union> set_option (proto (translateSearchLoop empty_dict (objects r)))"
    by (auto simp: entries_produced_def translateSearchResult_def split: outcome.splits)
  from values_translateSearchLoop[OF this] obtain pkg where "e = search_entry pkg"
    by (auto simp: empty_dict_def)
  then show "\<not> installed e \<and> \<not> enabled e \<and> installed_version e = [] \<and> entry_invariant e"
    by (simp add: search_entry_def entry_invariant_def)
next
  fix e assume "e \<in> entries_produced (translateInstalled (Fulfilled (Records pkgs)))"
  then have "e \<in> snd ` set (props (translateInstalledLoop empty_dict pkgs))
              \<union> set_option (proto (translateInstalledLoop empty_dict pkgs))"
    by (auto simp: entries_produced_def translateInstalled_def)
  from values_translateInstalledLoop[OF this]
  obtain pkg where "pkg \<in> set pkgs" "e = installed_entry pkg"
    by (auto simp: empty_dict_def)
  then show "\<exists>pkg \<in> set pkgs. e = installed_entry pkg \<and>
               (entry_invariant e \<longleftrightarrow> wire_invariant pkg)"
    using installed_entry_invariant by blast
qed

theorem translation_invariant_witness:
  "entry_invariant (search_entry
      \<lparr> pkg_name = ''a'', pkg_description = [], pkg_version = ''2.0.0'', pkg_keywords = [],
        pkg_links = \<lparr> homepage = None, repository = None, npm = ''n'' \<rparr> \<rparr>)
   \<and> entry_invariant (installed_entry
      \<lparr> inst_name = ''a'', inst_description = [], inst_url = [], inst_installed = None,
        inst_enabled = True, inst_latest_version = ''2.0.0'',
        inst_installed_version = ''1.0.0'', inst_status = Some OK \<rparr>)"
proof -
  let ?pk = "\<lparr> pkg_name = ''a'', pkg_description = [], pkg_version = ''2.0.0'',
      pkg_keywords = [], pkg_links = \<lparr> homepage = None, repository = None, npm = ''n'' \<rparr> \<rparr>"
  let ?ip = "\<lparr> inst_name = ''a'', inst_description = [], inst_url = [],
      inst_installed = None, inst_enabled = True, inst_latest_version = ''2.0.0'',
      inst_installed_version = ''1.0.0'', inst_status = Some OK \<rparr>"
  have a: "search_entry ?pk
      \<in> entries_produced (translateSearchResult (Fulfilled \<lparr> objects = [?pk], total = 1 \<rparr>))"
    by (simp add: entries_produced_def translateSearchResult_def empty_dict_def dict_set_def
          props_set_def array_index_def digit_value_def)
  have b: "entries_produced (translateInstalled (Fulfilled (Records [?ip]))) =
             {installed_entry ?ip}"
    by (simp add: entries_produced_def translateInstalled_def empty_dict_def dict_set_def
          props_set_def array_index_def digit_value_def)
  have c: "wire_invariant ?ip"
    by (simp add: wire_invariant_def)
  from translation_invariant[of "Fulfilled \<lparr> objects = [?pk], total = 1 \<rparr>" "[?ip]"] a b c
  show ?thesis by auto
qed

subsection \<open>The comparator and the sort\<close>

lemma comparator_entries:
  "comparator w (Entry a) (Entry b) =
     Inr (if name a = name b then 0
          else if trusted w a = trusted w b then 0
          else if trusted w a then - 1 else 1)"
  by (auto simp: comparator_def name_of_def trust_def trusted_def)

lemma comparator_entries_le:
  "comparator w (Entry a) (Entry b) = Inr c \<Longrightarrow> c \<le> 0 \<longleftrightarrow> trusted w a \<or> \<not> trusted w b"
  by (auto simp: comparator_entries trusted_def split: if_splits)

lemma sort_insert_blocks:
  assumes "\<forall>t \<in> set ts. trusted w t" and "\<forall>n \<in> set ns. \<not> trusted w n"
  shows "sort_insert (comparator w) (Entry x) (map Entry (ts @ ns)) =
           Inr (map Entry (if trusted w x then x # ts @ ns else ts @ x # ns))"
  using assms
proof (induction ts)
  case Nil
  then show ?case
    by (cases ns) (auto simp: comparator_entries trusted_def)
next
  case (Cons t ts)
  then show ?case
    by (auto simp: comparator_entries trusted_def)
qed

lemma array_sort_entries:
  "array_sort (comparator w) (map Entry es) = Inr (map Entry (trusted_first (trusted w) es))"
proof (induction es)
  case Nil
  then show ?case by (simp add: trusted_first_def)
next
  case (Cons x xs)
  have "sort_insert (comparator w) (Entry x)
          (map Entry (filter (trusted w) xs @ filter (\<lambda>e. \<not> trusted w e) xs)) =
        Inr (map Entry (if trusted w x
                        then x # filter (trusted w) xs @ filter (\<lambda>e. \<not> trusted w e) xs
                        else filter (trusted w) xs @ x # filter (\<lambda>e. \<not> trusted w e) xs))"
    by (rule sort_insert_blocks) auto
  with Cons show ?case by (simp add: trusted_first_def)
qed

lemma sort_insert_mset: "sort_insert cmp x ys = Inr zs \<Longrightarrow> mset zs = add_mset x (mset ys)"
  by (induction ys arbitrary: zs) (auto split: sum.splits if_splits)

lemma array_sort_mset: "array_sort cmp xs = Inr ys \<Longrightarrow> mset ys = mset xs"
  by (induction xs arbitrary: ys) (auto split: sum.splits dest: sort_insert_mset)

lemma trusted_first_index:
  assumes "i < length (trusted_first P u)" "j < length (trusted_first P u)"
    and "P (trusted_first P u ! i)" "\<not> P (trusted_first P u ! j)"
  shows "i < j"
proof -
  let ?ts = "filter P u" and ?ns = "filter (\<lambda>e. \<not> P e) u"
  have i: "i < length ?ts"
  proof (rule ccontr)
    assume "\<not> i < length ?ts"
    then have "trusted_first P u ! i = ?ns ! (i - length ?ts)" "i - length ?ts < length ?ns"
      using assms(1) by (auto simp: trusted_first_def nth_append)
    then have "trusted_first P u ! i \<in> set ?ns" by (metis nth_mem)
    with assms(3) show False by simp
  qed
  have j: "\<not> j < length ?ts"
  proof
    assume "j < length ?ts"
    then have "trusted_first P u ! j = ?ts ! j" "?ts ! j \<in> set ?ts"
      by (simp_all add: trusted_first_def nth_append del: set_filter)
    with assms(4) show False by simp
  qed
  from i j show ?thesis by simp
qed

lemma filter_trusted_first:
  "filter (\<lambda>e. P e = c) (trusted_first P u) = filter (\<lambda>e. P e = c) u"
  by (cases c) (auto simp: trusted_first_def intro: filter_cong)

lemma set_trusted_first: "set (trusted_first P xs) = set xs"
  by (auto simp: trusted_first_def)

lemma length_trusted_first: "length (trusted_first P xs) = length xs"
  using sum_length_filter_compl[of P xs] by (simp add: trusted_first_def)

lemma map_trusted_first: "map f (trusted_first (\<lambda>x. P (f x)) xs) = trusted_first P (map f xs)"
  by (simp add: trusted_first_def filter_map comp_def)

subsection \<open>Effect of the channels and of the pass on the fields\<close>

lemma handleError_reply:
  "(case answer of
      Rejected r \<Rightarrow> Rejected r
    | Fulfilled response \<Rightarrow>
        (case handleError response of Inl err \<Rightarrow> Rejected err | Inr checked \<Rightarrow> resp_json checked))
   = reply_of answer"
  by (simp add: reply_of_def handleError_def split: outcome.splits)

lemma fetchInstalled_unfold:
  "fetchInstalled r w s =
     (case requestInstalled w r of
        Throws e \<Rightarrow> (Throws e, s\<lparr>events := events s @ [GetInstalled r]\<rparr>)
      | Returns answer \<Rightarrow>
          (Returns (reply_of answer),
           s\<lparr>events := events s @ [GetInstalled r],
             serverConnectionError := slot (reply_of answer)\<rparr>))"
  by (simp add: fetchInstalled_def Let_def record_event_def slot_def handleError_reply
        split: call.splits)

lemma queryInstalled_fields:
  "snd (queryInstalled r w s) =
     s\<lparr>events := events s @ [GetInstalled r],
       serverConnectionError :=
         (case requestInstalled w r of
            Throws e \<Rightarrow> serverConnectionError s
          | Returns answer \<Rightarrow> slot (reply_of answer)),
       installedError :=
         (case requestInstalled w r of
            Throws e \<Rightarrow> Some (toString e)
          | Returns answer \<Rightarrow> slot (translateInstalled (reply_of answer)))\<rparr>"
  by (simp add: queryInstalled_def fetchInstalled_unfold slot_def
        split: call.splits outcome.splits)

lemma queryInstalled_dict:
  "fst (queryInstalled r w s) = translateInstalledLoop empty_dict (installed_reply r w)"
  by (simp add: queryInstalled_def fetchInstalled_unfold installed_reply_def
        translateInstalled_def
        split: call.splits outcome.splits installed_body.splits)

lemma translateSearchLoop_filter:
  "translateSearchLoop d (filter (\<lambda>pkg. ''deprecated'' \<notin> set (pkg_keywords pkg)) pkgs) =
     translateSearchLoop d pkgs"
  by (induction d pkgs rule: translateSearchLoop.induct) simp_all

lemma performSearch_dict:
  "fst (performSearch w s) = translateSearchLoop empty_dict (search_reply w s)"
  by (simp add: performSearch_def search_reply_def translateSearchResult_def Let_def
        translateSearchLoop_filter split: option.splits outcome.splits)

lemma performSearch_fields:
  "snd (performSearch w s) =
     (case query s of
        None \<Rightarrow> s\<lparr>searchResult := [], totalEntries := 0, searchError := None\<rparr>
      | Some q \<Rightarrow>
          s\<lparr>events := events s @ [SearchExtensions q (page s) (pagination s)],
            searchError := slot (searchExtensions w q (page s) (pagination s)),
            totalEntries := (case searchExtensions w q (page s) (pagination s) of
                               Fulfilled res \<Rightarrow> total res | Rejected r \<Rightarrow> 0)\<rparr>)"
  by (simp add: performSearch_def translateSearchResult_def Let_def record_event_def slot_def
        split: option.splits outcome.splits)

lemma update_promise_unfold:
  "update_promise r w s =
     publish w (fst (performSearch w s)) (fst (queryInstalled r w (snd (performSearch w s))))
       (snd (queryInstalled r w (snd (performSearch w s))))"
  by (simp add: update_promise_def split: prod.splits)

lemma keyed_performSearch: "keyed (fst (performSearch w s))"
  by (simp add: performSearch_dict keyed_translateSearchLoop keyed_empty)

lemma keyed_queryInstalled: "keyed (fst (queryInstalled r w s))"
  by (simp add: queryInstalled_dict keyed_translateInstalledLoop keyed_empty)

subsection \<open>What the loops of the pass collect\<close>

lemma map_filter_keys:
  "(\<forall>p \<in> set m. g (fst p) = Some (h p)) \<Longrightarrow> List.map_filter g (map fst m) = map h m"
  by (induction m) (simp_all add: map_filter_simps)

lemma dict_get_own: "keyed d \<Longrightarrow> (k, e) \<in> set (props d) \<Longrightarrow> dict_get d k = Some (Entry e)"
  by (simp add: dict_get_def keyed_get)

lemma installed_of_keyed: "keyed d \<Longrightarrow> installed_of d = map (\<lambda>p. Entry (snd p)) (props d)"
  unfolding installed_of_def dict_keys_def props_keys_def
  by (rule map_filter_keys) (auto simp: dict_get_own)

lemma merged_of_keyed: "keyed sm \<Longrightarrow> merged_of sm im = map (merged_item im) (props sm)"
  unfolding merged_of_def dict_keys_def props_keys_def
  by (rule map_filter_keys) (auto simp: dict_get_own merged_item_def split: option.splits)

lemma publish_installed:
  assumes "keyed im"
  shows "array_sort (comparator w) (installed_of im) =
           Inr (map Entry (trusted_first (trusted w) (map snd (props im))))"
proof -
  have "installed_of im = map Entry (map snd (props im))"
    using assms by (simp add: installed_of_keyed comp_def)
  then show ?thesis by (simp only: array_sort_entries)
qed

lemma events_publish:
  "publish w sm im s = (Fulfilled (), t) \<Longrightarrow> events t = events s @ [StateChanged]"
  by (auto simp: publish_def Let_def emit_def record_event_def split: sum.splits)

subsection \<open>A pass without a query\<close>

lemma publish_no_search:
  assumes "keyed im"
  shows "publish w empty_dict im s =
           (Fulfilled (),
            s\<lparr>installedView := map Entry (trusted_first (trusted w) (map snd (props im))),
              searchResult := [], events := events s @ [StateChanged]\<rparr>)"
  by (simp add: publish_def publish_installed[OF assms] merged_of_def dict_keys_def
        props_keys_def empty_dict_def map_filter_simps emit_def record_event_def)

text \<open>
  Claim C7: when \<open>query\<close> is null, a pass makes no registry call (the only request is the
  one for the installed extensions), and afterwards \<open>searchResult\<close> is empty,
  \<open>totalEntries\<close> is 0 and the search error is null. The same holds for the pass that
  setting \<open>query\<close> to null starts, from any model.
\<close>

theorem update_query_null:
  assumes "query s = None"
  shows "events (update refreshInstalled w s) =
           events s @ [GetInstalled refreshInstalled, StateChanged]
       \<and> searchResult (update refreshInstalled w s) = []
       \<and> totalEntries (update refreshInstalled w s) = 0
       \<and> searchError (update refreshInstalled w s) = None
       \<and> events (set_query None w s0) = events s0 @ [GetInstalled False, StateChanged]
       \<and> searchResult (set_query None w s0) = []
       \<and> totalEntries (set_query None w s0) = 0
       \<and> searchError (set_query None w s0) = None"
proof -
  have pass: "events (update r w t) = events t @ [GetInstalled r, StateChanged]
       \<and> searchResult (update r w t) = []
       \<and> totalEntries (update r w t) = 0
       \<and> searchError (update r w t) = None" if "query t = None" for r t
  proof -
    have m: "fst (performSearch w t) = empty_dict"
      using that by (simp add: performSearch_def)
    show ?thesis
      using that
      by (simp add: update_def update_promise_unfold m
            publish_no_search[OF keyed_queryInstalled] queryInstalled_fields
            performSearch_fields)
  qed
  from pass[OF assms, of refreshInstalled] pass[of "s0\<lparr>query := None\<rparr>" False]
  show ?thesis by (simp add: set_query_def)
qed

theorem update_query_null_witness:
  "events (update False sample_world initial) = [GetInstalled False, StateChanged]
   \<and> searchResult (update False sample_world initial) = []
   \<and> totalEntries (update False sample_world initial) = 0
   \<and> searchError (update False sample_world initial) = None"
proof -
  have q: "query initial = None" by (simp add: initial_def)
  from update_query_null[OF q, of False sample_world initial] show ?thesis
    by (simp add: initial_def)
qed

subsection \<open>The merged search view\<close>

lemma inherited_Entry: "inherited prototype key = Some (Entry e) \<Longrightarrow> key = ''__proto__''"
  by (auto simp: inherited_def entry_field_def split: option.splits if_splits)

lemma publish_fulfilled:
  assumes "publish w sm im s = (Fulfilled (), t)"
  shows "array_sort (comparator w) (merged_of sm im) = Inr (searchResult t)"
  using assms
  by (auto simp: publish_def Let_def emit_def record_event_def split: sum.splits)

lemmas sample_eval =
  sample_world_def initial_def sample_ok_def sample_500_def sample_package_def
  sample_installed_def update_def update_promise_def publish_def performSearch_def
  queryInstalled_def fetchInstalled_def translateSearchResult_def translateInstalled_def
  handleError_def record_event_def emit_def search_entry_def installed_entry_def
  installed_of_def merged_of_def dict_keys_def props_keys_def props_get_def dict_get_def
  dict_set_def props_set_def empty_dict_def inherited_def object_prototype_keys_def
  array_index_def digit_value_def map_filter_simps comparator_def name_of_def trust_def
  Let_def

text \<open>
  Claim C2: in the view a pass publishes, a name present in both maps is shown by the
  entry of the installed map, and a name present only in the search map by its
  search-derived entry. The code does not do this for a name that every object inherits:
  the test \<open>installedMap[key] === undefined\<close> reads through the prototype chain, so for
  a package named \<open>constructor\<close> that is found by the search and is not installed, the
  view receives the member \<open>constructor\<close> of \<open>Object.prototype\<close> in place of the
  search-derived entry.
\<close>

theorem inherited_name_shadows_search_entry:
  "searchResult (update False
      (sample_world\<lparr>
         searchExtensions := \<lambda>q p n. Fulfilled
           \<lparr> objects = [sample_package ''constructor''], total = 1 \<rparr>,
         requestInstalled := \<lambda>r. Returns (Fulfilled (sample_ok (Records [])))\<rparr>)
      (initial\<lparr>query := Some ''x''\<rparr>))
   = [Member ''constructor'']"
  by (simp add: sample_eval)

text \<open>
  For every other name the view is as claim C2 says: in the view of a pass that
  completes, a name that is an own key of both the search dictionary and the installed
  dictionary is shown by the installed entry, equal in every field; an own key of the
  search dictionary that the installed dictionary neither owns nor inherits is shown by
  the search-derived entry. The view has one element per search key, and no other entry
  of the view carries that name.
\<close>

theorem searchResult_dedup:
  assumes "performSearch w s = (searchMap, s1)"
    and "queryInstalled refreshInstalled w s1 = (installedMap, s2)"
    and "fst (update_promise refreshInstalled w s) = Fulfilled ()"
    and "key \<in> set (dict_keys searchMap)"
  shows "length (searchResult (update refreshInstalled w s)) = length (dict_keys searchMap)
       \<and> (\<forall>inst. props_get (props installedMap) key = Some inst \<longrightarrow>
              Entry inst \<in> set (searchResult (update refreshInstalled w s))
            \<and> (\<forall>e. Entry e \<in> set (searchResult (update refreshInstalled w s)) \<and> name e = key
                  \<longrightarrow> e = inst))
       \<and> (props_get (props installedMap) key = None
            \<and> inherited (proto installedMap) key = None \<longrightarrow>
            (\<exists>found. props_get (props searchMap) key = Some found
               \<and> Entry found \<in> set (searchResult (update refreshInstalled w s))
               \<and> (\<forall>e. Entry e \<in> set (searchResult (update refreshInstalled w s))
                       \<and> name e = key \<longrightarrow> e = found)))"
proof -
  let ?SR = "searchResult (update refreshInstalled w s)"
  have ks: "keyed searchMap" using assms(1) keyed_performSearch[of w s] by simp
  have ki: "keyed installedMap" using assms(2) keyed_queryInstalled[of refreshInstalled w s1] by simp
  have up: "update_promise refreshInstalled w s = publish w searchMap installedMap s2"
    using assms(1,2) by (simp add: update_promise_def)
  from assms(3) up have "publish w searchMap installedMap s2 =
      (Fulfilled (), update refreshInstalled w s)"
    by (simp add: update_def prod_eq_iff)
  from publish_fulfilled[OF this]
  have sorted: "array_sort (comparator w) (merged_of searchMap installedMap) = Inr ?SR" .
  have ms: "mset ?SR = mset (map (merged_item installedMap) (props searchMap))"
    using array_sort_mset[OF sorted] ks by (simp add: merged_of_keyed)
  then have st: "set ?SR = merged_item installedMap ` set (props searchMap)"
    by (metis set_mset_mset set_map)
  from ms have len: "length ?SR = length (dict_keys searchMap)"
    by (metis size_mset length_map dict_keys_def props_keys_def)
  from assms(4) obtain v where v: "(key, v) \<in> set (props searchMap)"
    by (auto simp: dict_keys_def props_keys_def)
  have proto_key: "''__proto__'' \<notin> fst ` set (props searchMap)"
    using ks by (simp add: keyed_def dict_keys_def props_keys_def)
  have from_key: "e = (case props_get (props installedMap) key of Some inst \<Rightarrow> inst | None \<Rightarrow> v)"
    if "Entry e \<in> set ?SR" "name e = key" for e
  proof -
    from that(1) st obtain k' v' where p: "(k', v') \<in> set (props searchMap)"
      and e: "Entry e = merged_item installedMap (k', v')"
      by auto
    have k: "k' = key"
    proof (cases "props_get (props installedMap) k'")
      case (Some inst)
      with e have "e = inst" by (simp add: merged_item_def dict_get_def)
      with Some keyed_name[OF ki] that(2) show ?thesis by simp
    next
      case None
      show ?thesis
      proof (cases "inherited (proto installedMap) k'")
        case (Some x)
        with None e have "inherited (proto installedMap) k' = Some (Entry e)"
          by (simp add: merged_item_def dict_get_def)
        then have "k' = ''__proto__''" by (rule inherited_Entry)
        with p proto_key show ?thesis by force
      next
        case inone: None
        with None e have "e = v'" by (simp add: merged_item_def dict_get_def)
        with p ks that(2) show ?thesis by (auto simp: keyed_def)
      qed
    qed
    with p v ks have vv: "v' = v"
      by (metis keyed_get option.inject)
    show ?thesis
    proof (cases "props_get (props installedMap) key")
      case (Some inst)
      with e k show ?thesis by (simp add: merged_item_def dict_get_def)
    next
      case None
      have "inherited (proto installedMap) key \<noteq> Some (Entry e)"
        using inherited_Entry[of "proto installedMap" key e] v proto_key by force
      with None e k vv show ?thesis
        by (auto simp: merged_item_def dict_get_def split: option.splits)
    qed
  qed
  have shown: "merged_item installedMap (key, v) \<in> set ?SR"
    using v st by auto
  show ?thesis
  proof (intro conjI allI impI)
    show "length ?SR = length (dict_keys searchMap)" by (rule len)
  next
    fix inst assume "props_get (props installedMap) key = Some inst"
    with shown show "Entry inst \<in> set ?SR" by (simp add: merged_item_def dict_get_def)
  next
    fix inst e
    assume "props_get (props installedMap) key = Some inst"
      and "Entry e \<in> set ?SR \<and> name e = key"
    with from_key[of e] show "e = inst" by simp
  next
    assume a: "props_get (props installedMap) key = None
                 \<and> inherited (proto installedMap) key = None"
    with shown have "Entry v \<in> set ?SR" by (simp add: merged_item_def dict_get_def)
    moreover have "props_get (props searchMap) key = Some v" using ks v by (rule keyed_get)
    moreover have "\<forall>e. Entry e \<in> set ?SR \<and> name e = key \<longrightarrow> e = v"
      using from_key a by simp
    ultimately show "\<exists>found. props_get (props searchMap) key = Some found
               \<and> Entry found \<in> set ?SR
               \<and> (\<forall>e. Entry e \<in> set ?SR \<and> name e = key \<longrightarrow> e = found)"
      by blast
  qed
qed

theorem searchResult_dedup_witness:
  "Entry (installed_entry (sample_installed ''zeta''))
     \<in> set (searchResult (update False sample_world (initial\<lparr>query := Some ''x''\<rparr>)))
   \<and> Entry (search_entry (sample_package ''@jupyterlab/alpha''))
     \<in> set (searchResult (update False sample_world (initial\<lparr>query := Some ''x''\<rparr>)))"
proof -
  let ?s = "initial\<lparr>query := Some ''x''\<rparr>"
  let ?sm = "fst (performSearch sample_world ?s)"
  let ?im = "fst (queryInstalled False sample_world (snd (performSearch sample_world ?s)))"
  have a: "performSearch sample_world ?s = (?sm, snd (performSearch sample_world ?s))"
    by simp
  have b: "queryInstalled False sample_world (snd (performSearch sample_world ?s)) =
             (?im, snd (queryInstalled False sample_world (snd (performSearch sample_world ?s))))"
    by simp
  have c: "fst (update_promise False sample_world ?s) = Fulfilled ()"
    by (simp add: sample_eval)
  have k1: "''zeta'' \<in> set (dict_keys ?sm)" and k2: "''@jupyterlab/alpha'' \<in> set (dict_keys ?sm)"
    by (simp_all add: sample_eval)
  have i1: "props_get (props ?im) ''zeta'' = Some (installed_entry (sample_installed ''zeta''))"
    by (simp add: sample_eval)
  have i2: "props_get (props ?im) ''@jupyterlab/alpha'' = None
              \<and> inherited (proto ?im) ''@jupyterlab/alpha'' = None"
    by (simp add: sample_eval)
  have s2: "props_get (props ?sm) ''@jupyterlab/alpha'' =
              Some (search_entry (sample_package ''@jupyterlab/alpha''))"
    by (simp add: sample_eval)
  from searchResult_dedup[OF a b c k1] i1
  have "Entry (installed_entry (sample_installed ''zeta''))
          \<in> set (searchResult (update False sample_world ?s))"
    by blast
  moreover from searchResult_dedup[OF a b c k2] i2 s2
  have "Entry (search_entry (sample_package ''@jupyterlab/alpha''))
          \<in> set (searchResult (update False sample_world ?s))"
    by auto
  ultimately show ?thesis by simp
qed

subsection \<open>Order of the views and order of the replies\<close>

lemma first_occurrences_snoc:
  "first_occurrences (xs @ [x]) =
     (if x \<in> set xs then first_occurrences xs else first_occurrences xs @ [x])"
  by (simp add: first_occurrences_def)

lemma set_first_occurrences: "set (first_occurrences xs) = set xs"
  by (simp add: first_occurrences_def)

lemma plain_not_proto: "plain key \<Longrightarrow> key \<noteq> ''__proto__''"
  by (auto simp: plain_def object_prototype_keys_def)

lemma dict_set_plain:
  assumes "plain key" and "dict_keys d = first_occurrences ns"
  shows "dict_keys (dict_set d key e) = first_occurrences (ns @ [key])"
    and "proto (dict_set d key e) = proto d"
proof -
  from assms(1) have np: "key \<noteq> ''__proto__''" by (rule plain_not_proto)
  from assms(1) have ai: "array_index key = None" by (simp add: plain_def)
  have "set (map fst (props d)) = set ns"
    using assms(2) set_first_occurrences[of ns] by (simp add: dict_keys_def props_keys_def)
  with assms(2) np ai show "dict_keys (dict_set d key e) = first_occurrences (ns @ [key])"
    by (simp add: dict_set_def dict_keys_def props_keys_def props_set_plain keys_props_put
          first_occurrences_snoc)
  from np show "proto (dict_set d key e) = proto d"
    by (simp add: dict_set_def)
qed

lemma translateInstalledLoop_plain:
  assumes "\<forall>pkg \<in> set pkgs. plain (inst_name pkg)" and "dict_keys d = first_occurrences ns"
  shows "dict_keys (translateInstalledLoop d pkgs) = first_occurrences (ns @ map inst_name pkgs)
       \<and> proto (translateInstalledLoop d pkgs) = proto d"
  using assms
proof (induction d pkgs arbitrary: ns rule: translateInstalledLoop.induct)
  case (1 entries)
  then show ?case by simp
next
  case (2 entries pkg rest)
  let ?d = "dict_set entries (inst_name pkg) (installed_entry pkg)"
  from 2(2) have pl: "plain (inst_name pkg)" by simp
  from dict_set_plain[OF pl 2(3)]
  have k: "dict_keys ?d = first_occurrences (ns @ [inst_name pkg])"
    and p: "proto ?d = proto entries"
    by simp_all
  from 2(2) have "\<forall>pkg \<in> set rest. plain (inst_name pkg)" by simp
  from 2(1)[OF this k] p show ?case by simp
qed

lemma translateSearchLoop_plain:
  assumes "\<forall>pkg \<in> set pkgs. ''deprecated'' \<notin> set (pkg_keywords pkg) \<and> plain (pkg_name pkg)"
    and "dict_keys d = first_occurrences ns"
  shows "dict_keys (translateSearchLoop d pkgs) = first_occurrences (ns @ map pkg_name pkgs)"
  using assms
proof (induction d pkgs arbitrary: ns rule: translateSearchLoop.induct)
  case (1 entries)
  then show ?case by simp
next
  case (2 entries pkg rest)
  let ?d = "dict_set entries (pkg_name pkg) (search_entry pkg)"
  from 2(3) have pl: "plain (pkg_name pkg)" and nd: "''deprecated'' \<notin> set (pkg_keywords pkg)"
    by simp_all
  from dict_set_plain(1)[OF pl 2(4)]
  have k: "dict_keys ?d = first_occurrences (ns @ [pkg_name pkg])" .
  from 2(3) have "\<forall>pkg \<in> set rest. ''deprecated'' \<notin> set (pkg_keywords pkg) \<and> plain (pkg_name pkg)"
    by simp
  from 2(2)[OF nd this k] nd show ?case by simp
qed

lemma keyed_names: "keyed d \<Longrightarrow> map name (map snd (props d)) = dict_keys d"
  by (auto simp: keyed_def dict_keys_def props_keys_def)

lemma shown_names_entries: "shown_names (map Entry es) = map name es"
  by (induction es) (simp_all add: shown_names_def map_filter_simps entry_name_def)

lemma trusted_names:
  "map name (trusted_first (trusted w) es) = trusted_first (isJupyterOrg w) (map name es)"
  using map_trusted_first[of name "isJupyterOrg w" es] by (simp add: trusted_def[abs_def])

text \<open>The views of a pass whose replies carry plain names only.\<close>

lemma plain_views:
  assumes "\<forall>pkg \<in> set (installed_reply r w). plain (inst_name pkg)"
    and "\<forall>pkg \<in> set (search_reply w s). plain (pkg_name pkg)"
  shows "\<exists>es. installedView (update r w s) = map Entry es
            \<and> map name es = trusted_first (isJupyterOrg w)
                 (first_occurrences (map inst_name (installed_reply r w)))"
    and "\<exists>es. searchResult (update r w s) = map Entry es
            \<and> map name es = trusted_first (isJupyterOrg w)
                 (first_occurrences (map pkg_name (search_reply w s)))"
proof -
  let ?sm = "fst (performSearch w s)"
  let ?s1 = "snd (performSearch w s)"
  let ?im = "fst (queryInstalled r w ?s1)"
  let ?s2 = "snd (queryInstalled r w ?s1)"
  have ks: "keyed ?sm" by (rule keyed_performSearch)
  have ki: "keyed ?im" by (rule keyed_queryInstalled)
  have e0: "dict_keys empty_dict = first_occurrences []"
    by (simp add: empty_dict_def dict_keys_def props_keys_def first_occurrences_def)
  have ikeys: "dict_keys ?im = first_occurrences (map inst_name (installed_reply r w))"
    and iproto: "proto ?im = None"
    using translateInstalledLoop_plain[OF assms(1) e0]
    by (simp_all add: queryInstalled_dict empty_dict_def)
  have nondep: "\<forall>pkg \<in> set (search_reply w s).
      ''deprecated'' \<notin> set (pkg_keywords pkg) \<and> plain (pkg_name pkg)"
    using assms(2) by (auto simp: search_reply_def split: option.splits outcome.splits)
  have skeys: "dict_keys ?sm = first_occurrences (map pkg_name (search_reply w s))"
    using translateSearchLoop_plain[OF nondep e0] by (simp add: performSearch_dict)
  define shown where
    "shown = (\<lambda>p :: string \<times> IEntry.
                case props_get (props ?im) (fst p) of Some e \<Rightarrow> e | None \<Rightarrow> snd p)"
  have item: "merged_item ?im p = Entry (shown p) \<and> name (shown p) = fst p"
    if "p \<in> set (props ?sm)" for p
  proof -
    from that have "fst p \<in> set (dict_keys ?sm)"
      by (auto simp: dict_keys_def props_keys_def)
    with skeys nondep have pl: "plain (fst p)"
      by (auto simp: set_first_occurrences)
    then have inh: "inherited (proto ?im) (fst p) = None"
      by (simp add: iproto inherited_def plain_def)
    show ?thesis
    proof (cases "props_get (props ?im) (fst p)")
      case None
      with inh that ks show ?thesis
        by (auto simp: merged_item_def dict_get_def shown_def keyed_def)
    next
      case (Some e)
      with keyed_name[OF ki Some] show ?thesis
        by (simp add: merged_item_def dict_get_def shown_def)
    qed
  qed
  have merged: "merged_of ?sm ?im = map Entry (map shown (props ?sm))"
    using item by (simp add: merged_of_keyed[OF ks])
  have names: "map name (map shown (props ?sm)) = dict_keys ?sm"
    using item by (simp add: dict_keys_def props_keys_def)
  have pub: "publish w ?sm ?im ?s2 =
      (Fulfilled (),
       emit (?s2\<lparr>installedView := map Entry (trusted_first (trusted w) (map snd (props ?im))),
                 searchResult := map Entry (trusted_first (trusted w) (map shown (props ?sm)))\<rparr>))"
  proof -
    have "array_sort (comparator w) (merged_of ?sm ?im) =
            Inr (map Entry (trusted_first (trusted w) (map shown (props ?sm))))"
      by (simp only: merged array_sort_entries)
    then show ?thesis
      by (simp add: publish_def publish_installed[OF ki])
  qed
  have iv: "installedView (update r w s) =
              map Entry (trusted_first (trusted w) (map snd (props ?im)))"
    and sv: "searchResult (update r w s) =
              map Entry (trusted_first (trusted w) (map shown (props ?sm)))"
    by (simp_all add: update_def update_promise_unfold pub emit_def record_event_def)
  show "\<exists>es. installedView (update r w s) = map Entry es
            \<and> map name es = trusted_first (isJupyterOrg w)
                 (first_occurrences (map inst_name (installed_reply r w)))"
    using iv keyed_names[OF ki] ikeys by (auto simp: trusted_names)
  show "\<exists>es. searchResult (update r w s) = map Entry es
            \<and> map name es = trusted_first (isJupyterOrg w)
                 (first_occurrences (map pkg_name (search_reply w s)))"
    using sv names skeys by (auto simp: trusted_names)
qed

lemma view_order:
  assumes "view = map Entry es" and "map name es = trusted_first P ns"
  shows "length (shown_names view) = length view
       \<and> shown_names view = trusted_first P ns
       \<and> (\<forall>i j. i < length view \<and> j < length view
              \<and> P (shown_names view ! i) \<and> \<not> P (shown_names view ! j) \<longrightarrow> i < j)
       \<and> (\<forall>c. filter (\<lambda>n. P n = c) (shown_names view) = filter (\<lambda>n. P n = c) ns)"
proof -
  have sn: "shown_names view = trusted_first P ns"
    using assms by (simp add: shown_names_entries)
  have len: "length (shown_names view) = length view"
    using assms(1) by (simp add: shown_names_entries)
  have idx: "\<forall>i j. i < length view \<and> j < length view
              \<and> P (shown_names view ! i) \<and> \<not> P (shown_names view ! j) \<longrightarrow> i < j"
    using trusted_first_index[of _ P ns] len sn by metis
  from sn len idx show ?thesis by (simp add: filter_trusted_first)
qed

text \<open>
  Claim C3: in both views the trusted entries come first, and the entries of one trust
  class keep the relative order of the reply of the channel. The code does not keep that
  order when a name is an array index: the entries pass through a dictionary, and
  \<open>Object.keys\<close> lists such names first, in numeric order. For a reply naming \<open>b\<close>,
  \<open>10\<close>, \<open>2\<close>, \<open>a\<close>, none of them trusted, the installed view shows \<open>2\<close>, \<open>10\<close>,
  \<open>b\<close>, \<open>a\<close>.
\<close>

theorem array_index_names_come_first:
  "shown_names (installedView (update False
      (sample_world\<lparr>requestInstalled := \<lambda>r. Returns (Fulfilled (sample_ok (Records
         [sample_installed ''b'', sample_installed ''10'', sample_installed ''2'',
          sample_installed ''a''])))\<rparr>)
      initial))
   = [''2'', ''10'', ''b'', ''a'']"
  by (simp add: sample_eval shown_names_def entry_name_def)

text \<open>
  For replies without such names the views are as claim C3 says: when no name of a
  reply is an array index or the key of a property inherited from \<open>Object.prototype\<close>,
  both views are published and consist of entries; in each view every entry of the
  trusted namespace comes before every entry outside it, and the entries of one trust
  class stand in the order in which their names first occur in the reply of the channel
  (for the search channel, among the packages that are not marked deprecated). The sort
  is stable and has no secondary key.
\<close>

theorem views_keep_reply_order:
  assumes "\<forall>pkg \<in> set (installed_reply refreshInstalled w). plain (inst_name pkg)"
    and "\<forall>pkg \<in> set (search_reply w s). plain (pkg_name pkg)"
  shows "(length (shown_names (installedView (update refreshInstalled w s))) =
            length (installedView (update refreshInstalled w s))
          \<and> shown_names (installedView (update refreshInstalled w s)) =
              trusted_first (isJupyterOrg w)
                (first_occurrences (map inst_name (installed_reply refreshInstalled w)))
          \<and> (\<forall>i j. i < length (installedView (update refreshInstalled w s))
                \<and> j < length (installedView (update refreshInstalled w s))
                \<and> isJupyterOrg w (shown_names (installedView (update refreshInstalled w s)) ! i)
                \<and> \<not> isJupyterOrg w (shown_names (installedView (update refreshInstalled w s)) ! j)
                \<longrightarrow> i < j)
          \<and> (\<forall>c. filter (\<lambda>n. isJupyterOrg w n = c)
                    (shown_names (installedView (update refreshInstalled w s))) =
                  filter (\<lambda>n. isJupyterOrg w n = c)
                    (first_occurrences (map inst_name (installed_reply refreshInstalled w)))))
       \<and> (length (shown_names (searchResult (update refreshInstalled w s))) =
            length (searchResult (update refreshInstalled w s))
          \<and> shown_names (searchResult (update refreshInstalled w s)) =
              trusted_first (isJupyterOrg w)
                (first_occurrences (map pkg_name (search_reply w s)))
          \<and> (\<forall>i j. i < length (searchResult (update refreshInstalled w s))
                \<and> j < length (searchResult (update refreshInstalled w s))
                \<and> isJupyterOrg w (shown_names (searchResult (update refreshInstalled w s)) ! i)
                \<and> \<not> isJupyterOrg w (shown_names (searchResult (update refreshInstalled w s)) ! j)
                \<longrightarrow> i < j)
          \<and> (\<forall>c. filter (\<lambda>n. isJupyterOrg w n = c)
                    (shown_names (searchResult (update refreshInstalled w s))) =
                  filter (\<lambda>n. isJupyterOrg w n = c)
                    (first_occurrences (map pkg_name (search_reply w s)))))"
proof -
  from plain_views(1)[OF assms] obtain es where
    "installedView (update refreshInstalled w s) = map Entry es"
    "map name es = trusted_first (isJupyterOrg w)
       (first_occurrences (map inst_name (installed_reply refreshInstalled w)))"
    by blast
  note a = view_order[OF this]
  from plain_views(2)[OF assms] obtain es' where
    "searchResult (update refreshInstalled w s) = map Entry es'"
    "map name es' = trusted_first (isJupyterOrg w)
       (first_occurrences (map pkg_name (search_reply w s)))"
    by blast
  note b = view_order[OF this]
  from a b show ?thesis by (rule conjI)
qed

theorem views_keep_reply_order_witness:
  "shown_names (installedView (update False sample_world (initial\<lparr>query := Some ''x''\<rparr>))) =
     [''zeta'']
   \<and> shown_names (searchResult (update False sample_world (initial\<lparr>query := Some ''x''\<rparr>))) =
     [''@jupyterlab/alpha'', ''zeta'']"
proof -
  let ?s = "initial\<lparr>query := Some ''x''\<rparr>"
  have i: "installed_reply False sample_world = [sample_installed ''zeta'']"
    by (simp add: installed_reply_def reply_of_def sample_world_def sample_ok_def)
  have q: "search_reply sample_world ?s =
             [sample_package ''zeta'', sample_package ''@jupyterlab/alpha'']"
    by (simp add: search_reply_def sample_world_def sample_package_def initial_def)
  have p: "plain ''zeta''" "plain ''@jupyterlab/alpha''"
    by (simp_all add: plain_def array_index_def digit_value_def object_prototype_keys_def)
  have a: "\<forall>pkg \<in> set (installed_reply False sample_world). plain (inst_name pkg)"
    using p by (simp add: i sample_installed_def)
  have b: "\<forall>pkg \<in> set (search_reply sample_world ?s). plain (pkg_name pkg)"
    using p by (simp add: q sample_package_def)
  from views_keep_reply_order[OF a b]
  have "shown_names (installedView (update False sample_world ?s)) =
          trusted_first (isJupyterOrg sample_world)
            (first_occurrences (map inst_name (installed_reply False sample_world)))"
    and "shown_names (searchResult (update False sample_world ?s)) =
          trusted_first (isJupyterOrg sample_world)
            (first_occurrences (map pkg_name (search_reply sample_world ?s)))"
    by blast+
  moreover have j: "isJupyterOrg sample_world = (\<lambda>n. take 12 n = ''@jupyterlab/'')"
    by (simp add: sample_world_def)
  moreover have "trusted_first (isJupyterOrg sample_world)
            (first_occurrences (map inst_name (installed_reply False sample_world))) = [''zeta'']"
    by (simp add: i j trusted_first_def first_occurrences_def sample_installed_def)
  moreover have "trusted_first (isJupyterOrg sample_world)
            (first_occurrences (map pkg_name (search_reply sample_world ?s))) =
          [''@jupyterlab/alpha'', ''zeta'']"
    by (simp add: q j trusted_first_def first_occurrences_def sample_package_def)
  ultimately show ?thesis by (simp only:)
qed

text \<open>
  The first half of claim C3 holds for every pass that completes, whatever the names:
  in both views every trusted entry stands before every entry that is not trusted.
\<close>

lemma comparator_rank:
  assumes "comparator w a b = Inr c"
  shows "if c \<le> 0 then before w a b else rank w a = Some False \<and> rank w b = Some True"
  using assms
  by (auto simp: comparator_def before_def rank_def split: sum.splits if_splits)

lemma before_trans: "before w a b \<Longrightarrow> before w b c \<Longrightarrow> before w a c"
  by (auto simp: before_def)

lemma sort_insert_sorted:
  assumes "sorted_wrt (before w) ys" and "sort_insert (comparator w) x ys = Inr zs"
  shows "sorted_wrt (before w) zs \<and> set zs = insert x (set ys)"
  using assms
proof (induction ys arbitrary: zs)
  case Nil
  then show ?case by auto
next
  case (Cons y ys)
  from Cons.prems(2) obtain c where c: "comparator w x y = Inr c"
    by (auto split: sum.splits)
  show ?case
  proof (cases "c \<le> 0")
    case True
    with c Cons.prems(2) have zs: "zs = x # y # ys" by simp
    from comparator_rank[OF c] True have xy: "before w x y" by simp
    have "before w x z" if "z \<in> set ys" for z
      using that Cons.prems(1) xy before_trans by auto
    with xy Cons.prems(1) zs show ?thesis by auto
  next
    case False
    with c Cons.prems(2) obtain zs' where i: "sort_insert (comparator w) x ys = Inr zs'"
      and zs: "zs = y # zs'"
      by (auto split: sum.splits)
    from Cons.prems(1) have "sorted_wrt (before w) ys" by simp
    from Cons.IH[OF this i] have s: "sorted_wrt (before w) zs'" and m: "set zs' = insert x (set ys)"
      by simp_all
    from comparator_rank[OF c] False have "before w y x" by (simp add: before_def)
    with Cons.prems(1) m have "\<forall>z \<in> set zs'. before w y z" by auto
    with s m zs show ?thesis by auto
  qed
qed

lemma array_sort_sorted:
  "array_sort (comparator w) xs = Inr ys \<Longrightarrow> sorted_wrt (before w) ys"
proof (induction xs arbitrary: ys)
  case Nil
  then show ?case by simp
next
  case (Cons x xs)
  from Cons.prems obtain ys' where a: "array_sort (comparator w) xs = Inr ys'"
    and i: "sort_insert (comparator w) x ys' = Inr ys"
    by (auto split: sum.splits)
  from sort_insert_sorted[OF Cons.IH[OF a] i] show ?case by simp
qed

lemma sorted_trusted_first:
  assumes "sorted_wrt (before w) view"
    and "i < length view" and "j < length view"
    and "view ! i = Entry a" and "view ! j = Entry b"
    and "isJupyterOrg w (name a)" and "\<not> isJupyterOrg w (name b)"
  shows "i < j"
proof (rule ccontr)
  assume "\<not> i < j"
  moreover from assms(4-7) have "i \<noteq> j" by auto
  ultimately have "j < i" by simp
  with assms(1,2) have "before w (view ! j) (view ! i)"
    by (simp add: sorted_wrt_iff_nth_less)
  with assms(4-7) show False
    by (simp add: before_def rank_def name_of_def trust_def)
qed

theorem trusted_entries_first:
  assumes "fst (update_promise refreshInstalled w s) = Fulfilled ()"
    and "view = installedView (update refreshInstalled w s)
         \<or> view = searchResult (update refreshInstalled w s)"
    and "i < length view" and "j < length view"
    and "view ! i = Entry a" and "view ! j = Entry b"
    and "isJupyterOrg w (name a)" and "\<not> isJupyterOrg w (name b)"
  shows "i < j"
proof -
  let ?sm = "fst (performSearch w s)"
  let ?im = "fst (queryInstalled refreshInstalled w (snd (performSearch w s)))"
  let ?s2 = "snd (queryInstalled refreshInstalled w (snd (performSearch w s)))"
  from assms(1) have p: "fst (publish w ?sm ?im ?s2) = Fulfilled ()"
    by (simp add: update_promise_unfold)
  then obtain sortedInstalled sortedSearch
    where a: "array_sort (comparator w) (installed_of ?im) = Inr sortedInstalled"
      and b: "array_sort (comparator w) (merged_of ?sm ?im) = Inr sortedSearch"
      and u: "snd (publish w ?sm ?im ?s2) =
                emit (?s2\<lparr>installedView := sortedInstalled, searchResult := sortedSearch\<rparr>)"
    by (auto simp: publish_def Let_def split: sum.splits)
  from u have "installedView (update refreshInstalled w s) = sortedInstalled"
    and "searchResult (update refreshInstalled w s) = sortedSearch"
    by (simp_all add: update_def update_promise_unfold emit_def record_event_def)
  with assms(2) array_sort_sorted[OF a] array_sort_sorted[OF b]
  have "sorted_wrt (before w) view" by auto
  from sorted_trusted_first[OF this assms(3-8)] show ?thesis .
qed

subsection \<open>Error slots\<close>

lemma decimal_500: "decimal 500 = ''500''"
  by (simp add: decimal.simps)

lemma slots_record_event:
  "searchError (record_event e s) = searchError s"
  "installedError (record_event e s) = installedError s"
  "serverConnectionError (record_event e s) = serverConnectionError s"
  by (simp_all add: record_event_def)

lemma slots_emit:
  "searchError (emit s) = searchError s"
  "installedError (emit s) = installedError s"
  "serverConnectionError (emit s) = serverConnectionError s"
  by (simp_all add: emit_def record_event_def)

lemma slots_addPendingAction:
  "searchError (addPendingAction p s) = searchError s"
  "installedError (addPendingAction p s) = installedError s"
  "serverConnectionError (addPendingAction p s) = serverConnectionError s"
  by (simp_all add: addPendingAction_def emit_def record_event_def)

lemma slots_remove_pending:
  "searchError (remove_pending p s) = searchError s"
  "installedError (remove_pending p s) = installedError s"
  "serverConnectionError (remove_pending p s) = serverConnectionError s"
  by (simp_all add: remove_pending_def Let_def emit_def record_event_def)

lemma slots_triggerBuildCheck:
  "searchError (snd (triggerBuildCheck w s)) = searchError s"
  "installedError (snd (triggerBuildCheck w s)) = installedError s"
  "serverConnectionError (snd (triggerBuildCheck w s)) = serverConnectionError s"
  by (simp_all add: triggerBuildCheck_def Let_def newPromise_def slots_addPendingAction
        slots_record_event)

lemma slots_settle_buildCheck:
  "searchError (settle_buildCheck tracked w s) = searchError s"
  "installedError (settle_buildCheck tracked w s) = installedError s"
  "serverConnectionError (settle_buildCheck tracked w s) = serverConnectionError s"
  by (cases tracked; cases "builder_getStatus w";
      simp add: settle_buildCheck_def buildStatus_arrives_def slots_remove_pending
        slots_record_event slots_emit)+

lemma slots_publish:
  "searchError (snd (publish w sm im s)) = searchError s"
  "installedError (snd (publish w sm im s)) = installedError s"
  "serverConnectionError (snd (publish w sm im s)) = serverConnectionError s"
  by (simp_all add: publish_def Let_def emit_def record_event_def split: sum.splits)

lemma promises_record_event: "promises (record_event e s) = promises s"
  by (simp add: record_event_def)

lemma performAction_cases:
  "performAction act entry w s =
     (case requestAction w act (name entry) of
        Throws r \<Rightarrow> (Throws r, None, record_event (PostAction act (name entry)) s)
      | Returns answer \<Rightarrow>
          (let s3 = addPendingAction (promises s)
                      ((record_event (PostAction act (name entry)) s)
                         \<lparr>promises := Suc (promises s)\<rparr>);
               checked = (\<exists>response. answer = Fulfilled response \<and> resp_ok response);
               b = (if checked then triggerBuildCheck w s3 else (None, s3));
               waiting = (if builder_answers_first w then None else fst b);
               s4 = (if builder_answers_first w then settle_buildCheck (fst b) w (snd b)
                     else snd b)
           in (Returns (reply_of answer), waiting,
               remove_pending (promises s)
                 (s4\<lparr>serverConnectionError := slot (reply_of answer)\<rparr>))))"
proof (cases "requestAction w act (name entry)")
  case (Throws r)
  then show ?thesis by (simp add: performAction_def Let_def)
next
  case (Returns answer)
  show ?thesis
  proof (cases answer)
    case (Rejected r)
    with Returns show ?thesis
      by (simp add: performAction_def Let_def newPromise_def record_event_def reply_of_def
            slot_def settle_buildCheck_def)
  next
    case (Fulfilled response)
    show ?thesis
    proof (cases "resp_ok response")
      case False
      with Returns Fulfilled show ?thesis
        by (simp add: performAction_def Let_def newPromise_def record_event_def reply_of_def
              handleError_def slot_def settle_buildCheck_def)
    next
      case True
      obtain tracked t where tb: "triggerBuildCheck w (addPendingAction (promises s)
              ((record_event (PostAction act (name entry)) s)\<lparr>promises := Suc (promises s)\<rparr>))
            = (tracked, t)"
        by (cases "triggerBuildCheck w (addPendingAction (promises s)
              ((record_event (PostAction act (name entry)) s)\<lparr>promises := Suc (promises s)\<rparr>))")
      from Returns Fulfilled True tb show ?thesis
        by (cases "resp_json response")
           (simp_all add: performAction_def Let_def newPromise_def reply_of_def
              handleError_def slot_def promises_record_event)
    qed
  qed
qed

lemma slots_performAction:
  "searchError (snd (snd (performAction act entry w s))) = searchError s"
  "installedError (snd (snd (performAction act entry w s))) = installedError s"
  "serverConnectionError (snd (snd (performAction act entry w s))) =
     (case requestAction w act (name entry) of
        Throws r \<Rightarrow> serverConnectionError s
      | Returns answer \<Rightarrow> slot (reply_of answer))"
  by (simp_all add: performAction_cases Let_def slots_remove_pending slots_settle_buildCheck
        slots_triggerBuildCheck slots_addPendingAction slots_record_event
        split: call.splits)

text \<open>
  Claim C8, as stated: a failure on the installed-query channel sets only the installed
  error slot. This fails: \<open>fetchInstalled\<close> registers its own rejection callback, so a
  rejected request for the installed extensions sets \<open>serverConnectionError\<close> too.
\<close>

theorem installed_failure_sets_serverConnectionError:
  "serverConnectionError initial = None
   \<and> serverConnectionError
        (snd (queryInstalled False
           (sample_world\<lparr>requestInstalled := \<lambda>r. Returns (Fulfilled sample_500)\<rparr>) initial))
       = Some ''Error: 500 (Internal Server Error)''"
  by (simp add: queryInstalled_fields slot_def reply_of_def sample_500_def sample_world_def
        initial_def decimal_500)

text \<open>
  Claim C8, amended: the search slot and the installed slot are independent of each other,
  and each is cleared on the next success of its own channel. The search channel writes
  \<open>searchError\<close> only: it sets it on a failed search, clears it on a successful one (and
  when \<open>query\<close> is null), and leaves \<open>installedError\<close> and \<open>serverConnectionError\<close>
  unchanged. The installed-query channel leaves \<open>searchError\<close> unchanged and sets
  \<open>installedError\<close> on each of its failures, but it is not independent of
  \<open>serverConnectionError\<close>: a request that is rejected (by the network, by a response that
  is not \<open>ok\<close>, by an unreadable body) sets it to the same message; a reply that was read
  but cannot be translated clears it; an exception thrown while the request is made
  leaves it as it was; a success clears both. A pass leaves the slots as its two
  channels do. An action request leaves \<open>searchError\<close> and \<open>installedError\<close> unchanged
  and writes \<open>serverConnectionError\<close> as the installed request does.
\<close>

theorem error_slots:
  "(installedError (snd (performSearch w s)) = installedError s
      \<and> serverConnectionError (snd (performSearch w s)) = serverConnectionError s
      \<and> searchError (snd (performSearch w s)) =
          (case query s of
             None \<Rightarrow> None
           | Some q \<Rightarrow> slot (searchExtensions w q (page s) (pagination s))))
   \<and> (searchError (snd (queryInstalled r w s)) = searchError s
      \<and> (\<forall>e. requestInstalled w r = Throws e \<longrightarrow>
             installedError (snd (queryInstalled r w s)) = Some (toString e)
           \<and> serverConnectionError (snd (queryInstalled r w s)) = serverConnectionError s)
      \<and> (\<forall>answer e. requestInstalled w r = Returns answer \<and> reply_of answer = Rejected e \<longrightarrow>
             installedError (snd (queryInstalled r w s)) = Some (toString e)
           \<and> serverConnectionError (snd (queryInstalled r w s)) = Some (toString e))
      \<and> (\<forall>answer e. requestInstalled w r = Returns answer
             \<and> reply_of answer = Fulfilled (Untranslatable e) \<longrightarrow>
             installedError (snd (queryInstalled r w s)) = Some (toString e)
           \<and> serverConnectionError (snd (queryInstalled r w s)) = None)
      \<and> (\<forall>answer pkgs. requestInstalled w r = Returns answer
             \<and> reply_of answer = Fulfilled (Records pkgs) \<longrightarrow>
             installedError (snd (queryInstalled r w s)) = None
           \<and> serverConnectionError (snd (queryInstalled r w s)) = None))
   \<and> (searchError (update r w s) = searchError (snd (performSearch w s))
      \<and> installedError (update r w s) = installedError (snd (queryInstalled r w s))
      \<and> serverConnectionError (update r w s) =
          serverConnectionError (snd (queryInstalled r w s)))
   \<and> (searchError (snd (snd (performAction act entry w s))) = searchError s
      \<and> installedError (snd (snd (performAction act entry w s))) = installedError s
      \<and> serverConnectionError (snd (snd (performAction act entry w s))) =
          (case requestAction w act (name entry) of
             Throws e \<Rightarrow> serverConnectionError s
           | Returns answer \<Rightarrow> slot (reply_of answer)))"
proof -
  have search: "installedError (snd (performSearch w s)) = installedError s
      \<and> serverConnectionError (snd (performSearch w s)) = serverConnectionError s
      \<and> searchError (snd (performSearch w s)) =
          (case query s of
             None \<Rightarrow> None
           | Some q \<Rightarrow> slot (searchExtensions w q (page s) (pagination s)))"
    by (simp add: performSearch_fields split: option.splits)
  have inst: "searchError (snd (queryInstalled r w s)) = searchError s
      \<and> (\<forall>e. requestInstalled w r = Throws e \<longrightarrow>
             installedError (snd (queryInstalled r w s)) = Some (toString e)
           \<and> serverConnectionError (snd (queryInstalled r w s)) = serverConnectionError s)
      \<and> (\<forall>answer e. requestInstalled w r = Returns answer \<and> reply_of answer = Rejected e \<longrightarrow>
             installedError (snd (queryInstalled r w s)) = Some (toString e)
           \<and> serverConnectionError (snd (queryInstalled r w s)) = Some (toString e))
      \<and> (\<forall>answer e. requestInstalled w r = Returns answer
             \<and> reply_of answer = Fulfilled (Untranslatable e) \<longrightarrow>
             installedError (snd (queryInstalled r w s)) = Some (toString e)
           \<and> serverConnectionError (snd (queryInstalled r w s)) = None)
      \<and> (\<forall>answer pkgs. requestInstalled w r = Returns answer
             \<and> reply_of answer = Fulfilled (Records pkgs) \<longrightarrow>
             installedError (snd (queryInstalled r w s)) = None
           \<and> serverConnectionError (snd (queryInstalled r w s)) = None)"
  proof (cases "requestInstalled w r")
    case (Throws e)
    then show ?thesis by (simp add: queryInstalled_fields)
  next
    case (Returns answer)
    show ?thesis
    proof (cases "reply_of answer")
      case (Rejected e)
      with Returns show ?thesis
        by (simp add: queryInstalled_fields slot_def translateInstalled_def)
    next
      case (Fulfilled body)
      with Returns show ?thesis
        by (cases body) (simp_all add: queryInstalled_fields slot_def translateInstalled_def)
    qed
  qed
  have pass: "searchError (update r w s) = searchError (snd (performSearch w s))
      \<and> installedError (update r w s) = installedError (snd (queryInstalled r w s))
      \<and> serverConnectionError (update r w s) =
          serverConnectionError (snd (queryInstalled r w s))"
    using search
    by (cases "requestInstalled w r")
       (simp_all add: update_def update_promise_unfold slots_publish queryInstalled_fields)
  have act: "searchError (snd (snd (performAction act entry w s))) = searchError s
      \<and> installedError (snd (snd (performAction act entry w s))) = installedError s
      \<and> serverConnectionError (snd (snd (performAction act entry w s))) =
          (case requestAction w act (name entry) of
             Throws e \<Rightarrow> serverConnectionError s
           | Returns answer \<Rightarrow> slot (reply_of answer))"
    by (simp only: slots_performAction simp_thms)
  show ?thesis
    by (rule conjI[OF search conjI[OF inst conjI[OF pass act]]])
qed

theorem error_slots_witness:
  "searchError (update False
      (sample_world\<lparr>requestInstalled := \<lambda>r. Returns (Fulfilled sample_500)\<rparr>)
      (initial\<lparr>query := Some ''x'', searchError := Some ''stale''\<rparr>)) = None
   \<and> installedError (update False
      (sample_world\<lparr>requestInstalled := \<lambda>r. Returns (Fulfilled sample_500)\<rparr>)
      (initial\<lparr>query := Some ''x'', searchError := Some ''stale''\<rparr>))
     = Some ''Error: 500 (Internal Server Error)''
   \<and> installedError (snd (queryInstalled False
      (sample_world\<lparr>requestInstalled := \<lambda>r. Returns (Fulfilled (sample_ok
         (Untranslatable (Thrown ''TypeError: undefined is not iterable''))))\<rparr>)
      (initial\<lparr>serverConnectionError := Some ''stale''\<rparr>)))
     = Some ''TypeError: undefined is not iterable''
   \<and> serverConnectionError (snd (queryInstalled False
      (sample_world\<lparr>requestInstalled := \<lambda>r. Returns (Fulfilled (sample_ok
         (Untranslatable (Thrown ''TypeError: undefined is not iterable''))))\<rparr>)
      (initial\<lparr>serverConnectionError := Some ''stale''\<rparr>)))
     = None"
proof -
  let ?w1 = "sample_world\<lparr>requestInstalled := \<lambda>r. Returns (Fulfilled sample_500)\<rparr>"
  let ?s1 = "initial\<lparr>query := Some ''x'', searchError := Some ''stale''\<rparr>"
  let ?w2 = "sample_world\<lparr>requestInstalled := \<lambda>r. Returns (Fulfilled (sample_ok
         (Untranslatable (Thrown ''TypeError: undefined is not iterable''))))\<rparr>"
  let ?s2 = "initial\<lparr>serverConnectionError := Some ''stale''\<rparr>"
  have r1: "requestInstalled ?w1 False = Returns (Fulfilled sample_500)"
    and a1: "reply_of (Fulfilled (sample_500 :: installed_body response)) =
               Rejected (Error ''500 (Internal Server Error)'')"
    and q1: "query ?s1 = Some ''x''"
    and x1: "slot (searchExtensions ?w1 ''x'' (page ?s1) (pagination ?s1)) = None"
    by (simp_all add: reply_of_def sample_500_def decimal_500 sample_world_def slot_def
          initial_def)
  have r2: "requestInstalled ?w2 False = Returns (Fulfilled (sample_ok
         (Untranslatable (Thrown ''TypeError: undefined is not iterable''))))"
    and a2: "reply_of (Fulfilled (sample_ok
         (Untranslatable (Thrown ''TypeError: undefined is not iterable'')))) =
         Fulfilled (Untranslatable (Thrown ''TypeError: undefined is not iterable''))"
    by (simp_all add: reply_of_def sample_ok_def)
  from error_slots[of ?w1 ?s1 False Install "installed_entry (sample_installed ''zeta'')"]
    r1 a1 q1 x1
  have "searchError (update False ?w1 ?s1) = None"
    and "installedError (update False ?w1 ?s1) = Some ''Error: 500 (Internal Server Error)''"
    by simp_all
  moreover
  from error_slots[of ?w2 ?s2 False Install "installed_entry (sample_installed ''zeta'')"]
    r2 a2
  have "installedError (snd (queryInstalled False ?w2 ?s2)) =
          Some ''TypeError: undefined is not iterable''"
    and "serverConnectionError (snd (queryInstalled False ?w2 ?s2)) = None"
    by simp_all
  ultimately show ?thesis by (simp only:)
qed

subsection \<open>The companion gate\<close>







lemma checkCompanionPackages_rejected:
  "fetchPackageData w (name entry) (latest_version entry) = Rejected r \<Longrightarrow>
   checkCompanionPackages entry w s =
     (Rejected r, record_event (FetchPackageData (name entry) (latest_version entry)) s)"
  by (simp add: checkCompanionPackages_def)




subsection \<open>Precondition errors\<close>

lemma performAction_call:
  "fst (performAction act entry w s) =
     (case requestAction w act (name entry) of
        Throws r \<Rightarrow> Throws r
      | Returns answer \<Rightarrow> Returns (reply_of answer))"
  by (simp add: performAction_cases Let_def split: call.splits)

lemma action_then_thrown:
  "fst (action_then act entry w s) = thrown_by (requestAction w act (name entry))"
proof (cases "performAction act entry w s")
  case (fields c waiting s1)
  with performAction_call[of act entry w s] show ?thesis
    by (cases "requestAction w act (name entry)"; cases c)
       (auto simp: action_then_def thrown_by_def split: outcome.splits)
qed

lemma install_then_thrown:
  "fst (install_then entry w s) = thrown_by (requestAction w Install (name entry))"
proof (cases "performAction Install entry w s")
  case (fields c waiting s1)
  with performAction_call[of Install entry w s] show ?thesis
    by (cases "requestAction w Install (name entry)"; cases c)
       (auto simp: install_then_def thrown_by_def split: outcome.splits)
qed

text \<open>
  Claim C6, as stated: the precondition errors are the only failures that surface
  synchronously to the caller. This fails: \<open>_performAction\<close> builds the URL and calls
  \<open>makeRequest\<close> in the body of the method, outside any promise callback, and the action
  methods call it in their own body; an exception thrown there (\<open>new URL\<close> on a base URL
  that is not valid) is thrown to the caller of \<open>uninstall\<close>, with the precondition met.
\<close>

theorem request_exception_reaches_caller:
  "installed (installed_entry (sample_installed ''zeta''))
   \<and> uninstall (installed_entry (sample_installed ''zeta''))
       (sample_world\<lparr>requestAction := \<lambda>a n. Throws (Thrown ''TypeError: Invalid URL'')\<rparr>)
       initial
     = (Some (Thrown ''TypeError: Invalid URL''),
        initial\<lparr>events := [PostAction Uninstall ''zeta'']\<rparr>)"
  by (simp add: uninstall_def action_then_def performAction_def record_event_def
        sample_world_def sample_installed_def installed_entry_def initial_def)

text \<open>
  Claim C6, amended: \<open>uninstall\<close> of an entry that is not installed, \<open>enable\<close> of an enabled
  entry and \<open>disable\<close> of a disabled entry throw at once, with the model and its trace
  untouched, so before any request. With the precondition met, the only failure thrown
  to the caller of the three methods is an exception thrown while the request is made;
  the same holds for \<open>install\<close> of an installed entry. Every other failure of these calls
  stays inside a promise.
\<close>

theorem precondition_errors:
  "(\<not> installed entry \<longrightarrow>
       uninstall entry w s =
         (Some (Error (''Not installed, cannot uninstall: '' @ name entry)), s))
   \<and> (enabled entry \<longrightarrow>
       enable entry w s = (Some (Error (''Already enabled: '' @ name entry)), s))
   \<and> (\<not> enabled entry \<longrightarrow>
       disable entry w s = (Some (Error (''Already disabled: '' @ name entry)), s))
   \<and> (installed entry \<longrightarrow>
       fst (uninstall entry w s) = thrown_by (requestAction w Uninstall (name entry)))
   \<and> (\<not> enabled entry \<longrightarrow>
       fst (enable entry w s) = thrown_by (requestAction w Enable (name entry)))
   \<and> (enabled entry \<longrightarrow>
       fst (disable entry w s) = thrown_by (requestAction w Disable (name entry)))
   \<and> (installed entry \<longrightarrow>
       fst (install entry w s) = thrown_by (requestAction w Install (name entry)))"
  by (simp add: uninstall_def enable_def disable_def install_def action_then_thrown
        install_then_thrown)

theorem precondition_errors_witness:
  "uninstall (search_entry (sample_package ''zeta'')) sample_world initial =
     (Some (Error ''Not installed, cannot uninstall: zeta''), initial)
   \<and> enable (installed_entry (sample_installed ''zeta'')) sample_world initial =
     (Some (Error ''Already enabled: zeta''), initial)
   \<and> disable (search_entry (sample_package ''zeta'')) sample_world initial =
     (Some (Error ''Already disabled: zeta''), initial)
   \<and> fst (uninstall (installed_entry (sample_installed ''zeta''))
          (sample_world\<lparr>requestAction := \<lambda>a n. Returns (Fulfilled sample_500)\<rparr>) initial) = None
   \<and> fst (disable (installed_entry (sample_installed ''zeta''))
          (sample_world\<lparr>requestAction := \<lambda>a n. Returns (Rejected (Error ''offline''))\<rparr>)
          initial) = None
   \<and> fst (install (installed_entry (sample_installed ''zeta''))
          (sample_world\<lparr>requestAction := \<lambda>a n. Throws (Thrown ''TypeError: Invalid URL'')\<rparr>)
          initial) = Some (Thrown ''TypeError: Invalid URL'')"
  using precondition_errors[of "search_entry (sample_package ''zeta'')" sample_world initial]
    precondition_errors[of "installed_entry (sample_installed ''zeta'')" sample_world initial]
    precondition_errors[of "installed_entry (sample_installed ''zeta'')"
      "sample_world\<lparr>requestAction := \<lambda>a n. Returns (Fulfilled sample_500)\<rparr>" initial]
    precondition_errors[of "installed_entry (sample_installed ''zeta'')"
      "sample_world\<lparr>requestAction := \<lambda>a n. Returns (Rejected (Error ''offline''))\<rparr>"
      initial]
    precondition_errors[of "installed_entry (sample_installed ''zeta'')"
      "sample_world\<lparr>requestAction := \<lambda>a n. Throws (Thrown ''TypeError: Invalid URL'')\<rparr>"
      initial]
  by (simp add: search_entry_def sample_package_def installed_entry_def sample_installed_def
        thrown_by_def)

subsection \<open>Updates\<close>

text \<open>
  Claim C10, as stated: when the entry is installed and has a latest version,
  \<open>entryHasUpdate\<close> returns true or false. This fails: \<open>semver.lt\<close> throws a \<open>TypeError\<close>
  on a string that is not a version, and \<open>entryHasUpdate\<close> passes any string of the entry
  to it; for an installed entry whose installed version is the empty string the call
  returns nothing.
\<close>

theorem invalid_version_throws:
  "entryHasUpdate sample_lt
     ((installed_entry (sample_installed ''zeta''))\<lparr>installed_version := []\<rparr>)
   = Inl (Thrown ''TypeError: Invalid Version: '')"
  by (simp add: entryHasUpdate_def sample_lt_def installed_entry_def sample_installed_def)

text \<open>
  Claim C10, amended: \<open>entryHasUpdate(entry)\<close> returns false whenever \<open>entry.installed\<close> is
  false or \<open>entry.latest_version\<close> is empty. Otherwise it ends as
  \<open>semver.lt(entry.installed_version, entry.latest_version)\<close> does: when that call returns,
  it returns true exactly when the installed version is semantic-version-less-than the
  latest one; when that call throws (a string that is not a version), it throws the same
  exception.
\<close>

theorem entryHasUpdate_cases:
  "(\<not> installed entry \<or> latest_version entry = [] \<longrightarrow> entryHasUpdate lt entry = Inr False)
   \<and> (installed entry \<and> latest_version entry \<noteq> [] \<longrightarrow>
        (\<forall>b. lt (installed_version entry) (latest_version entry) = Inr b \<longrightarrow>
              entryHasUpdate lt entry = Inr b)
      \<and> (\<forall>r. lt (installed_version entry) (latest_version entry) = Inl r \<longrightarrow>
              entryHasUpdate lt entry = Inl r))"
  by (simp add: entryHasUpdate_def)

theorem entryHasUpdate_cases_witness:
  "entryHasUpdate sample_lt (search_entry (sample_package ''zeta'')) = Inr False
   \<and> entryHasUpdate sample_lt (installed_entry (sample_installed ''zeta'')) = Inr True
   \<and> entryHasUpdate sample_lt
       ((installed_entry (sample_installed ''zeta''))\<lparr>latest_version := ''1.0.0''\<rparr>) = Inr False
   \<and> entryHasUpdate sample_lt
       ((installed_entry (sample_installed ''zeta''))\<lparr>installed_version := ''x''\<rparr>) = Inr False"
  using entryHasUpdate_cases[of "search_entry (sample_package ''zeta'')" sample_lt]
    entryHasUpdate_cases[of "installed_entry (sample_installed ''zeta'')" sample_lt]
    entryHasUpdate_cases[of
      "(installed_entry (sample_installed ''zeta''))\<lparr>latest_version := ''1.0.0''\<rparr>" sample_lt]
    entryHasUpdate_cases[of
      "(installed_entry (sample_installed ''zeta''))\<lparr>installed_version := ''x''\<rparr>" sample_lt]
  by (auto simp: search_entry_def sample_package_def installed_entry_def sample_installed_def
        sample_lt_def)

subsection \<open>Passes after an action\<close>

lemma passes_append: "passes (xs @ ys) = passes xs + passes ys"
  by (induction xs rule: passes.induct) simp_all

lemma events_record_event: "events (record_event e s) = events s @ [e]"
  by (simp add: record_event_def)

lemma events_emit: "events (emit s) = events s @ [StateChanged]"
  by (simp add: emit_def record_event_def)

lemma events_addPendingAction: "events (addPendingAction p s) = events s @ [StateChanged]"
  by (simp add: addPendingAction_def events_emit)

lemma events_remove_pending: "events (remove_pending p s) = events s @ [StateChanged]"
  by (simp add: remove_pending_def Let_def events_emit)

lemma passes_triggerBuildCheck:
  "passes (events (snd (triggerBuildCheck w s))) = passes (events s)"
  by (simp add: triggerBuildCheck_def Let_def newPromise_def events_addPendingAction
        events_record_event passes_append)

lemma passes_settle_buildCheck:
  "passes (events (settle_buildCheck tracked w s)) = passes (events s)"
  by (cases tracked; cases "builder_getStatus w")
     (simp_all add: settle_buildCheck_def buildStatus_arrives_def events_remove_pending
        events_record_event events_emit passes_append)

lemma performAction_completed:
  "(case fst (performAction act entry w s) of Throws r \<Rightarrow> Rejected r | Returns c \<Rightarrow> c) =
     completed_of w act entry"
  by (simp add: performAction_call completed_of_def split: call.splits)

lemma passes_performAction:
  "passes (events (snd (snd (performAction act entry w s)))) = passes (events s)"
  by (simp add: performAction_cases Let_def events_remove_pending events_addPendingAction
        events_record_event passes_append passes_triggerBuildCheck passes_settle_buildCheck
        split: call.splits)

lemma passes_publish: "passes (events (snd (publish w sm im s))) = passes (events s)"
  by (simp add: publish_def Let_def events_emit passes_append split: sum.splits)

lemma passes_update: "passes (events (update r w s)) = Suc (passes (events s))"
  by (simp add: update_def update_promise_unfold passes_publish queryInstalled_fields
        performSearch_fields passes_append split: option.splits)

lemma passes_checkCompanionPackages:
  "passes (events (snd (checkCompanionPackages entry w s))) = passes (events s)"
  by (simp add: checkCompanionPackages_def Let_def events_record_event passes_append
        split: outcome.splits option.splits sum.splits)

lemma passes_action_then:
  "passes (events (snd (action_then act entry w s))) =
     passes (events s) + (if is_fulfilled (completed_of w act entry) then 1 else 0)"
proof (cases "performAction act entry w s")
  case (fields c waiting s1)
  then have c: "(case c of Throws r \<Rightarrow> Rejected r | Returns c \<Rightarrow> c) = completed_of w act entry"
    and p: "passes (events s1) = passes (events s)"
    using performAction_completed[of act entry w s] passes_performAction[of act entry w s]
    by simp_all
  show ?thesis
  proof (cases c)
    case (Throws r)
    with fields c[symmetric] p show ?thesis by (simp add: action_then_def)
  next
    case (Returns answer)
    with fields c[symmetric] p show ?thesis
      by (cases answer) (simp_all add: action_then_def passes_settle_buildCheck passes_update)
  qed
qed

lemma passes_install_then:
  "passes (events (snd (install_then entry w s))) =
     passes (events s) + (if is_fulfilled (completed_of w Install entry) then 1 else 0)"
proof (cases "performAction Install entry w s")
  case (fields c waiting s1)
  then have c: "(case c of Throws r \<Rightarrow> Rejected r | Returns c \<Rightarrow> c) = completed_of w Install entry"
    and p: "passes (events s1) = passes (events s)"
    using performAction_completed[of Install entry w s]
      passes_performAction[of Install entry w s]
    by simp_all
  show ?thesis
  proof (cases c)
    case (Throws r)
    with fields c[symmetric] p show ?thesis by (simp add: install_then_def)
  next
    case (Returns answer)
    with fields c[symmetric] p show ?thesis
      by (cases answer)
         (simp_all add: install_then_def passes_settle_buildCheck passes_update
            events_record_event passes_append)
  qed
qed

text \<open>
  Claim C1, as stated: after the server action completes, also when it failed with a
  status that is not 2xx, a reconciliation pass is run. This fails: the pass is started
  in the fulfilment callback of \<open>_performAction(...).then(...)\<close>, and no action method
  has a rejection callback. An uninstall answered with status 500 leaves a trace without
  any request for the installed extensions.
\<close>

theorem uninstall_500_no_pass:
  "events (snd (uninstall (installed_entry (sample_installed ''zeta''))
      (sample_world\<lparr>requestAction := \<lambda>a n. Returns (Fulfilled sample_500)\<rparr>) initial))
   = [PostAction Uninstall ''zeta'', StateChanged, StateChanged]"
  by (simp add: uninstall_def action_then_def performAction_def handleError_def newPromise_def
        addPendingAction_def remove_pending_def emit_def record_event_def splice1_def
        settle_buildCheck_def
        sample_world_def sample_500_def sample_installed_def installed_entry_def initial_def
        Let_def)

text \<open>
  Claim C1, amended: for each of the four action methods, when the action is issued
  (precondition met; for \<open>install\<close> of an entry that is not installed, the gate
  approving), exactly one reconciliation pass is run afterwards if the promise of
  \<open>_performAction\<close> fulfils, that is, the request was answered by a 2xx response whose
  body could be read, whatever status the reply reports; if that promise rejects
  (failed request, response that is not 2xx, unreadable body), no pass is run.
\<close>

theorem pass_after_action:
  "(installed entry \<longrightarrow>
      passes (events (snd (uninstall entry w s))) =
        passes (events s) + (if is_fulfilled (completed_of w Uninstall entry) then 1 else 0))
   \<and> (\<not> enabled entry \<longrightarrow>
      passes (events (snd (enable entry w s))) =
        passes (events s) + (if is_fulfilled (completed_of w Enable entry) then 1 else 0))
   \<and> (enabled entry \<longrightarrow>
      passes (events (snd (disable entry w s))) =
        passes (events s) + (if is_fulfilled (completed_of w Disable entry) then 1 else 0))
   \<and> (installed entry \<or> fst (checkCompanionPackages entry w s) = Fulfilled True \<longrightarrow>
      passes (events (snd (install entry w s))) =
        passes (events s) + (if is_fulfilled (completed_of w Install entry) then 1 else 0))"
proof -
  have "passes (events (snd (install entry w s))) =
          passes (events s) + (if is_fulfilled (completed_of w Install entry) then 1 else 0)"
    if "installed entry \<or> fst (checkCompanionPackages entry w s) = Fulfilled True"
  proof (cases "installed entry")
    case True
    then show ?thesis by (simp add: install_def passes_install_then)
  next
    case False
    with that obtain s1 where g: "checkCompanionPackages entry w s = (Fulfilled True, s1)"
      by (cases "checkCompanionPackages entry w s") auto
    then have "passes (events s1) = passes (events s)"
      using passes_checkCompanionPackages[of entry w s] by simp
    with False g show ?thesis by (simp add: install_def passes_install_then)
  qed
  then show ?thesis
    by (simp add: uninstall_def enable_def disable_def passes_action_then)
qed

theorem pass_after_action_witness:
  "passes (events (snd (uninstall (installed_entry (sample_installed ''zeta'')) sample_world
      initial))) = 1
   \<and> passes (events (snd (uninstall (installed_entry (sample_installed ''zeta''))
      (sample_world\<lparr>requestAction := \<lambda>a n. Returns (Fulfilled sample_500)\<rparr>) initial))) = 0"
  using pass_after_action[of "installed_entry (sample_installed ''zeta'')" sample_world initial]
    pass_after_action[of "installed_entry (sample_installed ''zeta'')"
      "sample_world\<lparr>requestAction := \<lambda>a n. Returns (Fulfilled sample_500)\<rparr>" initial]
  by (simp add: completed_of_def reply_of_def sample_world_def sample_ok_def sample_500_def
        installed_entry_def sample_installed_def initial_def)

subsection \<open>Pending actions\<close>

lemma indexOf_member: "x \<in> set xs \<Longrightarrow> 0 \<le> indexOf xs x"
  by (induction xs) (auto simp: Let_def)

lemma splice1_Cons: "0 \<le> i \<Longrightarrow> splice1 (i + 1) (y # ys) = y # splice1 i ys"
  by (auto simp: splice1_def Let_def min_def nat_add_distrib)

lemma splice1_0: "splice1 0 (y # ys) = ys"
  by (simp add: splice1_def)

lemma splice1_indexOf: "x \<in> set xs \<Longrightarrow> splice1 (indexOf xs x) xs = remove1 x xs"
proof (induction xs)
  case Nil
  then show ?case by simp
next
  case (Cons y ys)
  show ?case
  proof (cases "y = x")
    case True
    then show ?thesis by (simp add: splice1_0)
  next
    case False
    with Cons.prems have m: "x \<in> set ys" by simp
    then have "0 \<le> indexOf ys x" by (rule indexOf_member)
    with False Cons.IH[OF m] show ?thesis
      by (simp add: Let_def splice1_Cons)
  qed
qed

lemma pending_addPendingAction:
  "pendingActions (addPendingAction p s) = pendingActions s @ [p]"
  by (simp add: addPendingAction_def emit_def record_event_def)

lemma pending_remove_pending:
  "p \<in> set (pendingActions s) \<Longrightarrow>
     pendingActions (remove_pending p s) = remove1 p (pendingActions s)"
  by (simp add: remove_pending_def emit_def record_event_def splice1_indexOf Let_def)

lemma tracker_run_invariant:
  "settles_tracked (mset (pendingActions s)) ops \<Longrightarrow>
     mset (pendingActions (tracker_run ops s)) = outstanding (mset (pendingActions s)) ops
   \<and> events (tracker_run ops s) = events s @ replicate (length ops) StateChanged"
proof (induction ops arbitrary: s)
  case Nil
  then show ?case by simp
next
  case (Cons op ops)
  show ?case
  proof (cases op)
    case (Add p)
    with Cons.prems
    have "settles_tracked (mset (pendingActions (addPendingAction p s))) ops"
      by (simp add: pending_addPendingAction)
    from Cons.IH[OF this] Add show ?thesis
      by (simp add: pending_addPendingAction events_addPendingAction replicate_append_same)
  next
    case (Settle p b)
    with Cons.prems have m: "p \<in> set (pendingActions s)" by simp
    with Cons.prems Settle
    have "settles_tracked (mset (pendingActions (remove_pending p s))) ops"
      by (simp add: pending_remove_pending)
    from Cons.IH[OF this] Settle m show ?thesis
      by (simp add: pending_remove_pending events_remove_pending replicate_append_same)
  qed
qed

lemma hasPendingActions_mset: "hasPendingActions s \<longleftrightarrow> mset (pendingActions s) \<noteq> {#}"
  by (simp add: hasPendingActions_def)

text \<open>
  Claim C9: adding a pending action appends its handle and emits \<open>stateChanged\<close> at once;
  when the promise settles, fulfilled or rejected alike, one occurrence of the handle is
  removed and \<open>stateChanged\<close> is emitted again; along any history in which only
  outstanding promises settle, \<open>hasPendingActions\<close> is true exactly while a handle is
  outstanding, and every step emits exactly one notification.
\<close>

theorem pending_accounting:
  assumes "settles_tracked (mset (pendingActions s)) ops"
  shows "mset (pendingActions (tracker_run ops s)) = outstanding (mset (pendingActions s)) ops
       \<and> (hasPendingActions (tracker_run ops s) \<longleftrightarrow>
             outstanding (mset (pendingActions s)) ops \<noteq> {#})
       \<and> events (tracker_run ops s) = events s @ replicate (length ops) StateChanged
       \<and> pendingActions (addPendingAction pending s) = pendingActions s @ [pending]
       \<and> events (addPendingAction pending s) = events s @ [StateChanged]
       \<and> hasPendingActions (addPendingAction pending s)
       \<and> (pending \<in> set (pendingActions s) \<longrightarrow>
             pendingActions (remove_pending pending s) = remove1 pending (pendingActions s))
       \<and> events (remove_pending pending s) = events s @ [StateChanged]"
  using tracker_run_invariant[OF assms]
  by (simp add: hasPendingActions_mset pending_addPendingAction events_addPendingAction
        pending_remove_pending events_remove_pending)

theorem pending_accounting_witness:
  "hasPendingActions (tracker_run [Add 0] initial)
   \<and> hasPendingActions (tracker_run [Add 0, Add 1, Settle 0 False] initial)
   \<and> \<not> hasPendingActions (tracker_run [Add 0, Add 1, Settle 0 False, Settle 1 True] initial)"
proof -
  have i: "mset (pendingActions initial) = {#}" by (simp add: initial_def)
  have a: "settles_tracked (mset (pendingActions initial)) [Add 0]"
    and b: "settles_tracked (mset (pendingActions initial)) [Add 0, Add 1, Settle 0 False]"
    and c: "settles_tracked (mset (pendingActions initial))
              [Add 0, Add 1, Settle 0 False, Settle 1 True]"
    by (simp_all add: i)
  from pending_accounting[OF a] pending_accounting[OF b] pending_accounting[OF c]
  show ?thesis by (simp add: i)
qed

end
